theory Spec2Isabelle
  imports Complex_Main "HOL-Library.Char_ord" "HOL-Library.List_Lexorder"
begin

section \<open>Timestamps as stored text\<close>

text \<open>
  The timestamp columns (\<open>position_close_events.created_at\<close>, \<open>trades.timestamp\<close>) are
  TEXT. The repository writes \<open>new Date().toISOString()\<close>, that is
  \<open>YYYY-MM-DDTHH:MM:SS.mmmZ\<close>, and earlier versions wrote the offset form
  \<open>YYYY-MM-DDTHH:MM:SS+08:00\<close>. SQLite compares and sorts such a column byte by byte, a
  proper prefix first: this is the order of \<open>string\<close> given by the two library theories
  imported for it. JavaScript reads the text with \<open>new Date(text)\<close>. Instants are
  milliseconds since the epoch.
\<close>

text \<open>Days since 1970-01-01 of a date of the proleptic Gregorian calendar, and back.\<close>

definition days_from_civil :: "int \<Rightarrow> int \<Rightarrow> int \<Rightarrow> int" where
  "days_from_civil y m d =
     (let y' = (if m \<le> 2 then y - 1 else y);
          era = y' div 400;
          yoe = y' - era * 400;
          mp = (m + 9) mod 12;
          doy = (153 * mp + 2) div 5 + d - 1;
          doe = yoe * 365 + yoe div 4 - yoe div 100 + doy
      in era * 146097 + doe - 719468)"

definition civil_from_days :: "int \<Rightarrow> int \<times> int \<times> int" where
  "civil_from_days z =
     (let z' = z + 719468;
          era = z' div 146097;
          doe = z' - era * 146097;
          yoe = (doe - doe div 1460 + doe div 36524 - doe div 146096) div 365;
          doy = doe - (365 * yoe + yoe div 4 - yoe div 100);
          mp = (5 * doy + 2) div 153;
          d = doy - (153 * mp + 2) div 5 + 1;
          m = (if mp < 10 then mp + 3 else mp - 9);
          y = yoe + era * 400
      in (if m \<le> 2 then y + 1 else y, m, d))"

text \<open>Decimal digits, and a number printed with leading zeros.\<close>

definition digit_char :: "int \<Rightarrow> char" where
  "digit_char n = ''0123456789'' ! nat (n mod 10)"

definition pad2 :: "int \<Rightarrow> string" where
  "pad2 n = [digit_char (n div 10), digit_char n]"

definition pad3 :: "int \<Rightarrow> string" where
  "pad3 n = [digit_char (n div 100), digit_char (n div 10), digit_char n]"

definition pad4 :: "int \<Rightarrow> string" where
  "pad4 n = [digit_char (n div 1000), digit_char (n div 100), digit_char (n div 10), digit_char n]"

definition digit_value :: "char \<Rightarrow> int option" where
  "digit_value c =
     map_of [(CHR ''0'', 0), (CHR ''1'', 1), (CHR ''2'', 2), (CHR ''3'', 3), (CHR ''4'', 4),
             (CHR ''5'', 5), (CHR ''6'', 6), (CHR ''7'', 7), (CHR ''8'', 8), (CHR ''9'', 9)] c"

fun number_value :: "int \<Rightarrow> string \<Rightarrow> int option" where
  "number_value acc [] = Some acc"
| "number_value acc (c # cs) =
     (case digit_value c of None \<Rightarrow> None | Some v \<Rightarrow> number_value (acc * 10 + v) cs)"

text \<open>
  SQLite's \<open>datetime(t)\<close> of an instant: \<open>YYYY-MM-DD HH:MM:SS\<close> in UTC, the date and the
  time separated by a space, whole seconds.
\<close>

definition sqlite_datetime :: "int \<Rightarrow> string" where
  "sqlite_datetime t =
     (let seconds = t div 1000;
          days = seconds div 86400;
          sod = seconds mod 86400
      in case civil_from_days days of (y, m, d) \<Rightarrow>
           pad4 y @ ''-'' @ pad2 m @ ''-'' @ pad2 d @ '' ''
           @ pad2 (sod div 3600) @ '':'' @ pad2 (sod mod 3600 div 60) @ '':'' @ pad2 (sod mod 60))"

text \<open>\<open>Date.prototype.toISOString\<close> of an instant (years 0000 to 9999).\<close>

definition toISOString :: "int \<Rightarrow> string" where
  "toISOString t =
     (let days = t div 86400000;
          msod = t mod 86400000
      in case civil_from_days days of (y, m, d) \<Rightarrow>
           pad4 y @ ''-'' @ pad2 m @ ''-'' @ pad2 d @ ''T''
           @ pad2 (msod div 3600000) @ '':'' @ pad2 (msod mod 3600000 div 60000) @ '':''
           @ pad2 (msod mod 60000 div 1000) @ ''.'' @ pad3 (msod mod 1000) @ ''Z'')"

text \<open>
  \<open>new Date(text).getTime()\<close> for the two forms the repository has written, with or
  without milliseconds: \<open>YYYY-MM-DDTHH:MM:SS[.mmm]Z\<close> and
  \<open>YYYY-MM-DDTHH:MM:SS[.mmm]+HH:MM\<close> (or \<open>-HH:MM\<close>). \<open>None\<close> is the invalid date, whose
  time is NaN; a date that is not in the calendar and every other text are taken as
  invalid.
\<close>

definition zone_offset_minutes :: "string \<Rightarrow> int option" where
  "zone_offset_minutes z =
     (if z = ''Z'' then Some 0
      else if length z = 6 \<and> (z ! 0 = CHR ''+'' \<or> z ! 0 = CHR ''-'') \<and> z ! 3 = CHR '':''
      then (case (number_value 0 (take 2 (drop 1 z)), number_value 0 (drop 4 z)) of
              (Some hh, Some mm) \<Rightarrow>
                if hh \<le> 23 \<and> mm \<le> 59
                then Some ((if z ! 0 = CHR ''-'' then - 1 else 1) * (hh * 60 + mm))
                else None
            | _ \<Rightarrow> None)
      else None)"

definition js_date_parse :: "string \<Rightarrow> int option" where
  "js_date_parse s =
     (if 20 \<le> length s \<and> s ! 4 = CHR ''-'' \<and> s ! 7 = CHR ''-'' \<and> s ! 10 = CHR ''T''
         \<and> s ! 13 = CHR '':'' \<and> s ! 16 = CHR '':''
      then
        (case (number_value 0 (take 4 s), number_value 0 (take 2 (drop 5 s)),
               number_value 0 (take 2 (drop 8 s)), number_value 0 (take 2 (drop 11 s)),
               number_value 0 (take 2 (drop 14 s)), number_value 0 (take 2 (drop 17 s))) of
           (Some y, Some m, Some d, Some hh, Some mm, Some ss) \<Rightarrow>
             if civil_from_days (days_from_civil y m d) = (y, m, d)
                \<and> hh \<le> 23 \<and> mm \<le> 59 \<and> ss \<le> 59
             then
               (let rest = drop 19 s;
                    fraction = (if take 1 rest = ''.'' then number_value 0 (take 3 (drop 1 rest))
                                else Some 0);
                    zone = (if take 1 rest = ''.'' then drop 4 rest else rest)
                in case (fraction, zone_offset_minutes zone) of
                     (Some ms, Some offset) \<Rightarrow>
                       if take 1 rest = ''.'' \<and> length rest < 5 then None
                       else Some (((days_from_civil y m d * 24 + hh) * 60 + mm - offset) * 60000
                                  + ss * 1000 + ms)
                   | _ \<Rightarrow> None)
             else None
         | _ \<Rightarrow> None)
      else None)"

section \<open>Closed-position events and the event store\<close>

text \<open>
  A row of the table \<open>position_close_events\<close>, with the columns the cooldown manager
  and the duplicate repair read. \<open>created_at\<close> is the stored text; the numeric columns
  are reals (JavaScript numbers without rounding), and a column that may be NULL is an
  option.
\<close>

record close_event =
  ev_id :: nat
  ev_trigger_order_id :: "string option"
  ev_symbol :: string
  ev_pnl :: "real option"
  ev_pnl_percent :: "real option"
  ev_close_reason :: string
  ev_created_at :: string

datatype db_error = DbError string

text \<open>
  The two SELECT statements of \<open>coinCooldownManager.ts\<close>: loss rows of one symbol newer than
  \<open>datetime('now', '-N hours')\<close>, with or without \<open>ORDER BY created_at DESC\<close>.
\<close>

datatype loss_query = LossQuery (q_symbol: string) (q_hours: int) (q_ordered: bool)

text \<open>\<open>dbClient.execute\<close>: a read either throws or returns rows.\<close>

type_synonym db_client = "loss_query \<Rightarrow> db_error + close_event list"

definition hours_ms :: "int \<Rightarrow> int" where
  "hours_ms h = h * 60 * 60 * 1000"

text \<open>
  The WHERE clause \<open>symbol = ? AND pnl < 0 AND created_at > datetime('now', '-N hours')\<close>.
  Both sides of the last comparison are text, so it is the comparison of the stored
  \<open>created_at\<close> text with the text \<open>YYYY-MM-DD HH:MM:SS\<close> that \<open>datetime\<close> returns.
\<close>

definition is_loss_since :: "string \<Rightarrow> string \<Rightarrow> close_event \<Rightarrow> bool" where
  "is_loss_since symb cutoff e \<longleftrightarrow>
     ev_symbol e = symb \<and> (case ev_pnl e of None \<Rightarrow> False | Some p \<Rightarrow> p < 0)
     \<and> cutoff < ev_created_at e"

text \<open>
  \<open>ORDER BY created_at DESC\<close>, on the text: descending, rows of equal \<open>created_at\<close>
  in table order.
\<close>

definition order_by_created_at_desc :: "close_event list \<Rightarrow> close_event list" where
  "order_by_created_at_desc es = rev (sort_key ev_created_at (rev es))"

text \<open>The query run on the table \<open>tbl\<close> when the clock of the database reads \<open>now\<close>.\<close>

definition run_query :: "int \<Rightarrow> close_event list \<Rightarrow> loss_query \<Rightarrow> close_event list" where
  "run_query now tbl q =
     (let cutoff = sqlite_datetime (now - hours_ms (q_hours q));
          rows = filter (is_loss_since (q_symbol q) cutoff) tbl
      in if q_ordered q then order_by_created_at_desc rows else rows)"

text \<open>A reachable store holding the table \<open>tbl\<close>, read at the instant \<open>now\<close>.\<close>

definition table_client :: "int \<Rightarrow> close_event list \<Rightarrow> db_client" where
  "table_client now tbl q = Inr (run_query now tbl q)"

text \<open>A store whose every read throws.\<close>

definition failing_client :: "db_error \<Rightarrow> db_client" where
  "failing_client err q = Inl err"

section \<open>coinCooldownManager.ts\<close>

text \<open>
  The \<open>reason\<close> text of a cooldown verdict is one of four templates; the constructor names
  the template and carries the value interpolated into it.
\<close>

datatype cooldown_reason =
    SingleLossOverThreshold real
  | LossesIn24h nat
  | LossesIn24hLongCooldown nat
  | TrendReversalLoss

record cooldown_result =
  inCooldown :: bool
  reason :: "cooldown_reason option"
  cooldownUntil :: "int option"
  remainingHours :: "real option"

datatype log_msg = CooldownCheckFailed string | LossStatsFailed string

datatype log_entry = LogError log_msg db_error

record loss =
  lossSymbol :: string
  lossPercent :: real
  closeReason :: string
  closedAt :: string

definition to_loss :: "close_event \<Rightarrow> loss" where
  "to_loss row =
     \<lparr>lossSymbol = ev_symbol row,
      lossPercent = \<bar>case ev_pnl_percent row of None \<Rightarrow> 0 | Some p \<Rightarrow> p\<bar>,
      closeReason = ev_close_reason row,
      closedAt = ev_created_at row\<rparr>"

definition not_in_cooldown :: cooldown_result where
  "not_in_cooldown = \<lparr>inCooldown = False, reason = None, cooldownUntil = None, remainingHours = None\<rparr>"

text \<open>\<open>Math.ceil(remainingHours * 10) / 10\<close> with
  \<open>remainingHours = (cooldownUntil - now) / (1000 * 60 * 60)\<close>.\<close>

definition remaining_hours :: "int \<Rightarrow> int \<Rightarrow> real" where
  "remaining_hours until now =
     real_of_int \<lceil>(real_of_int (until - now) / (1000 * 60 * 60)) * 10\<rceil> / 10"

text \<open>The verdict returned inside a rule; \<open>cooldownUntil\<close> is kept as the instant.\<close>

definition in_cooldown :: "cooldown_reason \<Rightarrow> int \<Rightarrow> int \<Rightarrow> cooldown_result" where
  "in_cooldown r until now =
     \<lparr>inCooldown = True, reason = Some r, cooldownUntil = Some until,
      remainingHours = Some (remaining_hours until now)\<rparr>"

text \<open>
  The block every rule ends with: \<open>closedTime = new Date(closedAt)\<close>,
  \<open>cooldownUntil = closedTime + hours\<close>, and \<open>if (now < cooldownUntil) return ...\<close>.
  \<open>Some\<close> is the value returned, \<open>None\<close> is falling through to the next rule (also
  for an invalid date, which compares false).
\<close>

definition cooldown_window ::
  "string \<Rightarrow> int \<Rightarrow> int \<Rightarrow> cooldown_reason \<Rightarrow> cooldown_result option" where
  "cooldown_window closedAtText hours now r =
     (case js_date_parse closedAtText of
        None \<Rightarrow> None
      | Some closedTime \<Rightarrow>
          (let cooldownUntil = closedTime + hours_ms hours
           in if now < cooldownUntil then Some (in_cooldown r cooldownUntil now) else None))"

text \<open>
  The four rules of \<open>isSymbolInCooldown\<close> over the non-empty \<open>losses\<close>, whose first
  element is \<open>recentLoss\<close>; \<open>now\<close> is the \<open>new Date()\<close> taken when the call starts.
\<close>

definition rule1 :: "loss \<Rightarrow> int \<Rightarrow> cooldown_result option" where
  "rule1 recentLoss now =
     (if 15 \<le> lossPercent recentLoss
      then cooldown_window (closedAt recentLoss) 12 now
             (SingleLossOverThreshold (lossPercent recentLoss))
      else None)"

definition rule2 :: "loss \<Rightarrow> loss list \<Rightarrow> int \<Rightarrow> cooldown_result option" where
  "rule2 recentLoss losses now =
     (if 2 \<le> length losses
      then cooldown_window (closedAt recentLoss) 24 now (LossesIn24h (length losses))
      else None)"

definition rule3 :: "loss \<Rightarrow> loss list \<Rightarrow> int \<Rightarrow> cooldown_result option" where
  "rule3 recentLoss losses now =
     (if 3 \<le> length losses
      then cooldown_window (closedAt recentLoss) 48 now (LossesIn24hLongCooldown (length losses))
      else None)"

definition rule4 :: "loss list \<Rightarrow> int \<Rightarrow> cooldown_result option" where
  "rule4 losses now =
     (case find (\<lambda>l. closeReason l = ''trend_reversal'') losses of
        None \<Rightarrow> None
      | Some reversalLoss \<Rightarrow> cooldown_window (closedAt reversalLoss) 6 now TrendReversalLoss)"

text \<open>The body after the read: no rows, or the rules in order until one returns.\<close>

definition evaluate_losses :: "close_event list \<Rightarrow> int \<Rightarrow> cooldown_result" where
  "evaluate_losses rows now =
     (case map to_loss rows of
        [] \<Rightarrow> not_in_cooldown
      | recentLoss # rest \<Rightarrow>
          (case rule1 recentLoss now of
             Some verdict \<Rightarrow> verdict
           | None \<Rightarrow>
               (case rule2 recentLoss (recentLoss # rest) now of
                  Some verdict \<Rightarrow> verdict
                | None \<Rightarrow>
                    (case rule3 recentLoss (recentLoss # rest) now of
                       Some verdict \<Rightarrow> verdict
                     | None \<Rightarrow>
                         (case rule4 (recentLoss # rest) now of
                            Some verdict \<Rightarrow> verdict
                          | None \<Rightarrow> not_in_cooldown)))))"

text \<open>
  The whole function: the \<open>catch\<close> logs the error of the read and answers as if there
  were no loss. The second component of the result is what was written to the log.
\<close>

definition isSymbolInCooldown :: "db_client \<Rightarrow> string \<Rightarrow> int \<Rightarrow> cooldown_result \<times> log_entry list" where
  "isSymbolInCooldown db symbol now =
     (case db (LossQuery symbol 24 True) of
        Inl err \<Rightarrow> (not_in_cooldown, [LogError (CooldownCheckFailed symbol) err])
      | Inr rows \<Rightarrow> (evaluate_losses rows now, []))"

record loss_stats =
  losses24h :: int
  losses48h :: int
  totalLoss24h :: real
  totalLoss48h :: real
  avgLossPercent24h :: real
  hasReversalLoss :: bool

definition pnl_of :: "close_event \<Rightarrow> real" where
  "pnl_of row = (case ev_pnl row of None \<Rightarrow> 0 | Some p \<Rightarrow> p)"

definition abs_pnl_percent_of :: "close_event \<Rightarrow> real" where
  "abs_pnl_percent_of row = \<bar>case ev_pnl_percent row of None \<Rightarrow> 0 | Some p \<Rightarrow> p\<bar>"

definition zero_stats :: loss_stats where
  "zero_stats =
     \<lparr>losses24h = 0, losses48h = 0, totalLoss24h = 0, totalLoss48h = 0,
      avgLossPercent24h = 0, hasReversalLoss = False\<rparr>"

definition compute_stats :: "close_event list \<Rightarrow> close_event list \<Rightarrow> loss_stats" where
  "compute_stats rows24 rows48 =
     \<lparr>losses24h = int (length rows24),
      losses48h = int (length rows48),
      totalLoss24h = foldl (\<lambda>sum row. sum + pnl_of row) 0 rows24,
      totalLoss48h = foldl (\<lambda>sum row. sum + pnl_of row) 0 rows48,
      avgLossPercent24h =
        (if 0 < length rows24
         then foldl (\<lambda>sum row. sum + abs_pnl_percent_of row) 0 rows24 / real (length rows24)
         else 0),
      hasReversalLoss = list_ex (\<lambda>row. ev_close_reason row = ''trend_reversal'') rows24\<rparr>"

text \<open>
  \<open>getSymbolLossStats\<close> reads the 24-hour rows, then the 48-hour rows; an error of either
  read is caught, logged and answered with the all-zero record.
\<close>

definition getSymbolLossStats :: "db_client \<Rightarrow> string \<Rightarrow> loss_stats \<times> log_entry list" where
  "getSymbolLossStats db symbol =
     (case db (LossQuery symbol 24 False) of
        Inl err \<Rightarrow> (zero_stats, [LogError (LossStatsFailed symbol) err])
      | Inr rows24 \<Rightarrow>
          (case db (LossQuery symbol 48 False) of
             Inl err \<Rightarrow> (zero_stats, [LogError (LossStatsFailed symbol) err])
           | Inr rows48 \<Rightarrow> (compute_stats rows24 rows48, [])))"

text \<open>
  \<open>calculateHistoricalLossPenalty\<close> (\<open>calculatePenalty\<close> in the specification), with the
  assignments to \<open>penalty\<close> in the order of the source.
\<close>

definition calculateHistoricalLossPenalty :: "loss_stats \<Rightarrow> int" where
  "calculateHistoricalLossPenalty stats =
     (let penalty = 0;
          penalty = (if 0 < losses24h stats
                     then penalty + 20 +
                          (if 20 \<le> avgLossPercent24h stats then 15
                           else if 15 \<le> avgLossPercent24h stats then 10
                           else if 10 \<le> avgLossPercent24h stats then 5
                           else 0)
                     else penalty);
          penalty = (if 2 \<le> losses48h stats then penalty + 20 else penalty);
          penalty = (if hasReversalLoss stats then penalty + 15 else penalty)
      in penalty)"

subsection \<open>The rule list as the specification words it\<close>

text \<open>
  The four rules in their fixed order, each as (condition, reason, close time of the loss
  the window starts at, hours), over the losses ordered most recent first; the verdict is
  that of the first rule whose condition holds and whose window is still open.
\<close>

definition cooldown_rules :: "loss list \<Rightarrow> (bool \<times> cooldown_reason \<times> string \<times> int) list" where
  "cooldown_rules losses =
     (case losses of
        [] \<Rightarrow> []
      | mostRecent # _ \<Rightarrow>
          [(15 \<le> lossPercent mostRecent, SingleLossOverThreshold (lossPercent mostRecent),
              closedAt mostRecent, 12),
           (2 \<le> length losses, LossesIn24h (length losses), closedAt mostRecent, 24),
           (3 \<le> length losses, LossesIn24hLongCooldown (length losses), closedAt mostRecent, 48)]
          @ (case find (\<lambda>l. closeReason l = ''trend_reversal'') losses of
               None \<Rightarrow> []
             | Some firstReversal \<Rightarrow> [(True, TrendReversalLoss, closedAt firstReversal, 6)]))"

definition window_open :: "string \<Rightarrow> int \<Rightarrow> int \<Rightarrow> bool" where
  "window_open closedAtText hours now =
     (case js_date_parse closedAtText of
        None \<Rightarrow> False
      | Some closedTime \<Rightarrow> now < closedTime + hours_ms hours)"

definition first_open_rule_verdict :: "loss list \<Rightarrow> int \<Rightarrow> cooldown_result" where
  "first_open_rule_verdict losses now =
     (case find (\<lambda>(holds, r, closedAtText, hours). holds \<and> window_open closedAtText hours now)
             (cooldown_rules losses) of
        None \<Rightarrow> not_in_cooldown
      | Some (holds, r, closedAtText, hours) \<Rightarrow>
          (case js_date_parse closedAtText of
             None \<Rightarrow> not_in_cooldown
           | Some closedTime \<Rightarrow> in_cooldown r (closedTime + hours_ms hours) now))"

text \<open>
  The tier of the average loss (at most one applies, the highest threshold met), and the
  penalty as a sum of four components that do not depend on one another.
\<close>

definition tier_bonus :: "real \<Rightarrow> int" where
  "tier_bonus avg = (if 20 \<le> avg then 15 else if 15 \<le> avg then 10 else if 10 \<le> avg then 5 else 0)"

definition penalty_four_independent :: "loss_stats \<Rightarrow> int" where
  "penalty_four_independent stats =
     (if 0 < losses24h stats then 20 else 0)
     + tier_bonus (avgLossPercent24h stats)
     + (if 2 \<le> losses48h stats then 20 else 0)
     + (if hasReversalLoss stats then 15 else 0)"

subsection \<open>Sample data\<close>

text \<open>
  The clock reads 2026-11-03T03:10:28.000Z. AVAX lost 8 percent 13 hours before, and 6
  percent 25 hours before; the older row comes first in the table. In the second table the
  loss of 13 hours before is one of 18 percent.
\<close>

definition clock_now :: int where
  "clock_now = 1793675428000"

definition hour :: int where
  "hour = 3600000"

definition avax_loss_25h_ago :: close_event where
  "avax_loss_25h_ago =
     \<lparr>ev_id = 1, ev_trigger_order_id = Some ''7001'', ev_symbol = ''AVAX'', ev_pnl = Some (-4),
      ev_pnl_percent = Some (-6), ev_close_reason = ''stop_loss'',
      ev_created_at = ''2026-11-02T02:10:28.000Z''\<rparr>"

definition avax_loss_13h_ago :: close_event where
  "avax_loss_13h_ago =
     \<lparr>ev_id = 2, ev_trigger_order_id = Some ''7002'', ev_symbol = ''AVAX'', ev_pnl = Some (-5),
      ev_pnl_percent = Some (-8), ev_close_reason = ''stop_loss'',
      ev_created_at = ''2026-11-02T14:10:28.000Z''\<rparr>"

definition avax_severe_loss_13h_ago :: close_event where
  "avax_severe_loss_13h_ago =
     \<lparr>ev_id = 2, ev_trigger_order_id = Some ''7002'', ev_symbol = ''AVAX'', ev_pnl = Some (-12),
      ev_pnl_percent = Some (-18), ev_close_reason = ''stop_loss'',
      ev_created_at = ''2026-11-02T14:10:28.000Z''\<rparr>"

definition btc_loss_1h_ago :: close_event where
  "btc_loss_1h_ago =
     \<lparr>ev_id = 3, ev_trigger_order_id = None, ev_symbol = ''BTC'', ev_pnl = Some (-1),
      ev_pnl_percent = Some (-1), ev_close_reason = ''stop_loss'',
      ev_created_at = ''2026-11-03T02:10:28.000Z''\<rparr>"

definition avax_table :: "close_event list" where
  "avax_table = [avax_loss_25h_ago, avax_loss_13h_ago, btc_loss_1h_ago]"

definition avax_severe_table :: "close_event list" where
  "avax_severe_table = [avax_loss_25h_ago, avax_severe_loss_13h_ago, btc_loss_1h_ago]"

section \<open>detectReversal (test-position-market-analysis.ts)\<close>

datatype position_side = Long | Short

text \<open>\<open>String.prototype.startsWith\<close>, without a start position.\<close>

definition startsWith :: "string \<Rightarrow> string \<Rightarrow> bool" where
  "startsWith s searchString \<longleftrightarrow> take (length searchString) s = searchString"

text \<open>
  \<open>entryState\<close> is \<open>string | undefined\<close>: \<open>None\<close> is \<open>undefined\<close>. The guard
  \<open>!entryState\<close> also rejects the empty string.
\<close>

definition detectReversal :: "position_side \<Rightarrow> string option \<Rightarrow> string \<Rightarrow> bool" where
  "detectReversal positionSide entryState currentState =
     (case entryState of
        None \<Rightarrow> False
      | Some entry \<Rightarrow>
          if entry = [] then False
          else
            let isLong = (positionSide = Long);
                wasUptrend = startsWith entry ''uptrend'';
                wasDowntrend = startsWith entry ''downtrend'';
                nowUptrend = startsWith currentState ''uptrend'';
                nowDowntrend = startsWith currentState ''downtrend''
            in if isLong \<and> wasUptrend \<and> nowDowntrend then True
               else if \<not> isLong \<and> wasDowntrend \<and> nowUptrend then True
               else False)"

section \<open>The conditional-order ledger (table \<open>price_orders\<close>)\<close>

datatype order_status = Active | Triggered | Cancelled

datatype leg_type = StopLoss | TakeProfit

text \<open>
  A row of \<open>price_orders\<close>, column by column as the table is declared. Timestamps are
  instants in milliseconds; \<open>order_price\<close> is always written as 0.
\<close>

record price_order =
  po_id :: nat
  po_order_id :: string
  po_position_order_id :: "string option"
  po_symbol :: string
  po_side :: position_side
  po_type :: leg_type
  po_trigger_price :: real
  po_order_price :: real
  po_quantity :: real
  po_status :: order_status
  po_created_at :: int
  po_updated_at :: "int option"
  po_triggered_at :: "int option"

text \<open>JavaScript truthiness of a nullable text and of a nullable number.\<close>

definition truthy_text :: "string option \<Rightarrow> bool" where
  "truthy_text v = (case v of None \<Rightarrow> False | Some s \<Rightarrow> s \<noteq> [])"

definition truthy_num :: "real option \<Rightarrow> bool" where
  "truthy_num v = (case v of None \<Rightarrow> False | Some x \<Rightarrow> x \<noteq> 0)"

text \<open>\<open>id INTEGER PRIMARY KEY AUTOINCREMENT\<close>: above every id of the table.\<close>

definition next_id :: "price_order list \<Rightarrow> nat" where
  "next_id rows = Suc (foldr (\<lambda>r m. max (po_id r) m) rows 0)"

text \<open>
  The INSERT statement shared by the three writers: ten columns are given, \<open>order_price\<close>
  is 0, \<open>updated_at\<close> and \<open>triggered_at\<close> stay NULL. \<open>order_id\<close> is declared UNIQUE, so
  the statement throws when the order id is already in the table.
\<close>

definition insert_price_order ::
  "price_order list \<Rightarrow> string \<Rightarrow> string \<Rightarrow> position_side \<Rightarrow> leg_type \<Rightarrow> real \<Rightarrow> real \<Rightarrow>
   order_status \<Rightarrow> int \<Rightarrow> string option \<Rightarrow> db_error + price_order list" where
  "insert_price_order rows orderId symbol side leg triggerPrice quantity status createdAt positionOrderId =
     (if orderId \<in> set (map po_order_id rows)
      then Inl (DbError ''UNIQUE constraint failed: price_orders.order_id'')
      else Inr (rows @
        [\<lparr>po_id = next_id rows, po_order_id = orderId, po_position_order_id = positionOrderId,
          po_symbol = symbol, po_side = side, po_type = leg, po_trigger_price = triggerPrice,
          po_order_price = 0, po_quantity = quantity, po_status = status,
          po_created_at = createdAt, po_updated_at = None, po_triggered_at = None\<rparr>]))"

subsection \<open>syncPriceOrders (sync-price-orders script)\<close>

text \<open>
  A row of \<open>positions\<close>, and what the script's
  \<open>SELECT symbol, side, quantity, stop_loss, profit_target, sl_order_id, tp_order_id\<close>
  returns of it.
\<close>

record position_row =
  pos_symbol :: string
  pos_side :: position_side
  pos_quantity :: real
  pos_stop_loss :: "real option"
  pos_profit_target :: "real option"
  pos_sl_order_id :: "string option"
  pos_tp_order_id :: "string option"

record position = position_row +
  pos_entry_order_id :: "string option"

definition select_position_columns :: "position \<Rightarrow> position_row" where
  "select_position_columns p =
     \<lparr>pos_symbol = pos_symbol p, pos_side = pos_side p, pos_quantity = pos_quantity p,
      pos_stop_loss = pos_stop_loss p, pos_profit_target = pos_profit_target p,
      pos_sl_order_id = pos_sl_order_id p, pos_tp_order_id = pos_tp_order_id p\<rparr>"

text \<open>
  \<open>position.entry_order_id\<close>, read from a row of that SELECT: the column is not in the
  select list, so the property is \<open>undefined\<close>.
\<close>

definition selected_entry_order_id :: "position_row \<Rightarrow> string option" where
  "selected_entry_order_id position = None"

text \<open>
  \<open>SELECT id FROM price_orders WHERE order_id = ?\<close>: the ids of the matching rows, and
  \<open>existingOrder.position_order_id\<close> read from such a row, which has the one property
  \<open>id\<close>.
\<close>

definition select_id_by_order_id :: "price_order list \<Rightarrow> string \<Rightarrow> nat list" where
  "select_id_by_order_id rows orderId = map po_id (filter (\<lambda>r. po_order_id r = orderId) rows)"

definition selected_position_order_id :: "nat \<Rightarrow> string option" where
  "selected_position_order_id existingOrder = None"

text \<open>\<open>UPDATE price_orders SET position_order_id = ? WHERE order_id = ?\<close>\<close>

definition update_position_order_id ::
  "price_order list \<Rightarrow> string option \<Rightarrow> string \<Rightarrow> price_order list" where
  "update_position_order_id rows positionOrderId orderId =
     map (\<lambda>r. if po_order_id r = orderId then r\<lparr>po_position_order_id := positionOrderId\<rparr> else r) rows"

datatype exchange_error = ExchangeError string

text \<open>\<open>exchangeClient.getOrder(id)\<close>: throws, or returns an order whose \<open>status\<close> is read.\<close>

type_synonym exchange_client = "string \<Rightarrow> exchange_error + string"

definition ledger_status :: "string \<Rightarrow> order_status" where
  "ledger_status venueStatus =
     (if venueStatus = ''open'' then Active
      else if venueStatus = ''finished'' then Triggered
      else Cancelled)"

record sync_state =
  ledger :: "price_order list"
  syncCount :: nat
  skipCount :: nat

text \<open>
  One of the two blocks of the loop body (the stop-loss block and the take-profit block are
  the same text up to the leg's columns, which are the last three arguments here). The
  \<open>try\<close> covers the venue lookup and the INSERT: either failure counts as a skip.
\<close>

definition sync_leg ::
  "exchange_client \<Rightarrow> int \<Rightarrow> string option \<Rightarrow> position_row \<Rightarrow> leg_type \<Rightarrow> string option \<Rightarrow>
   real option \<Rightarrow> sync_state \<Rightarrow> sync_state" where
  "sync_leg exchange now positionOrderId position leg legOrderId legPrice st =
     (case (legOrderId, legPrice) of
        (Some orderId, Some price) \<Rightarrow>
          if orderId \<noteq> [] \<and> price \<noteq> 0 then
            (case select_id_by_order_id (ledger st) orderId of
               [] \<Rightarrow>
                 (case exchange orderId of
                    Inl err \<Rightarrow> st\<lparr>skipCount := skipCount st + 1\<rparr>
                  | Inr venueStatus \<Rightarrow>
                      (case insert_price_order (ledger st) orderId (pos_symbol position)
                              (pos_side position) leg price (pos_quantity position)
                              (ledger_status venueStatus) now positionOrderId of
                         Inl err \<Rightarrow> st\<lparr>skipCount := skipCount st + 1\<rparr>
                       | Inr rows \<Rightarrow> st\<lparr>ledger := rows, syncCount := syncCount st + 1\<rparr>))
             | existingOrder # _ \<Rightarrow>
                 (let st' =
                    (if \<not> truthy_text (selected_position_order_id existingOrder)
                        \<and> truthy_text positionOrderId
                     then st\<lparr>ledger := update_position_order_id (ledger st) positionOrderId orderId\<rparr>
                     else st)
                  in st'\<lparr>skipCount := skipCount st' + 1\<rparr>))
          else st
      | _ \<Rightarrow> st)"

text \<open>
  The loop over the positions. \<open>clock i\<close> is the \<open>new Date()\<close> taken at the start of
  iteration \<open>i\<close>; \<open>position.entry_order_id || null\<close> is the entry order id the legs are
  linked to.
\<close>

fun sync_positions ::
  "exchange_client \<Rightarrow> (nat \<Rightarrow> int) \<Rightarrow> nat \<Rightarrow> position_row list \<Rightarrow> sync_state \<Rightarrow> sync_state" where
  "sync_positions exchange clock i [] st = st"
| "sync_positions exchange clock i (position # rest) st =
     (let now = clock i;
          positionOrderId =
            (if truthy_text (selected_entry_order_id position)
             then selected_entry_order_id position else None);
          st1 = sync_leg exchange now positionOrderId position StopLoss
                  (pos_sl_order_id position) (pos_stop_loss position) st;
          st2 = sync_leg exchange now positionOrderId position TakeProfit
                  (pos_tp_order_id position) (pos_profit_target position) st1
      in sync_positions exchange clock (Suc i) rest st2)"

definition syncPriceOrders ::
  "exchange_client \<Rightarrow> (nat \<Rightarrow> int) \<Rightarrow> position list \<Rightarrow> price_order list \<Rightarrow> sync_state" where
  "syncPriceOrders exchange clock positions rows =
     sync_positions exchange clock 0 (map select_position_columns positions)
       \<lparr>ledger = rows, syncCount = 0, skipCount = 0\<rparr>"

subsection \<open>Reconciled ledgers\<close>

text \<open>
  A leg is settled in a ledger when the loop has nothing to insert for it: the leg is not
  looked at (order id or price missing), its order id is in the ledger, or the venue lookup
  of its order id throws.
\<close>

definition leg_settled :: "exchange_client \<Rightarrow> price_order list \<Rightarrow> string option \<Rightarrow> real option \<Rightarrow> bool" where
  "leg_settled exchange rows legOrderId legPrice =
     (case (legOrderId, legPrice) of
        (Some orderId, Some price) \<Rightarrow>
          orderId = [] \<or> price = 0 \<or> orderId \<in> set (map po_order_id rows) \<or> isl (exchange orderId)
      | _ \<Rightarrow> True)"

definition position_settled :: "exchange_client \<Rightarrow> price_order list \<Rightarrow> position_row \<Rightarrow> bool" where
  "position_settled exchange rows p \<longleftrightarrow>
     leg_settled exchange rows (pos_sl_order_id p) (pos_stop_loss p)
     \<and> leg_settled exchange rows (pos_tp_order_id p) (pos_profit_target p)"

subsection \<open>Sample data for the reconciliation\<close>

definition sample_position :: position where
  "sample_position =
     \<lparr>pos_symbol = ''BNB'', pos_side = Long, pos_quantity = 1250,
      pos_stop_loss = Some 988, pos_profit_target = Some 998,
      pos_sl_order_id = Some ''SL001'', pos_tp_order_id = Some ''TP001'',
      pos_entry_order_id = Some ''12345''\<rparr>"

definition sample_exchange :: exchange_client where
  "sample_exchange orderId =
     (if orderId = ''TP001'' then Inr ''open'' else Inl (ExchangeError ''order not found''))"

definition legacy_stop_row :: price_order where
  "legacy_stop_row =
     \<lparr>po_id = 1, po_order_id = ''SL001'', po_position_order_id = None, po_symbol = ''BNB'',
      po_side = Long, po_type = StopLoss, po_trigger_price = 988, po_order_price = 0,
      po_quantity = 1250, po_status = Active, po_created_at = 5, po_updated_at = None,
      po_triggered_at = None\<rparr>"

section \<open>Creating and replacing the protective pair\<close>

subsection \<open>createProtectivePair (the excerpt of tradeExecution.ts)\<close>

text \<open>
  The persistence step after an entry order \<open>order\<close> was filled and the venue returned
  the ids of the two legs. \<open>order.id?.toString() || ""\<close> is the position order id; each
  leg is inserted when its id is truthy; the \<open>try\<close> around both INSERTs logs a database
  error and goes on, so the second INSERT is not run after a failing first one. The result
  is the ledger and the errors logged.
\<close>

definition createProtectivePair ::
  "price_order list \<Rightarrow> string option \<Rightarrow> string \<Rightarrow> position_side \<Rightarrow> string option \<Rightarrow> string option \<Rightarrow>
   real \<Rightarrow> real \<Rightarrow> real \<Rightarrow> int \<Rightarrow> price_order list \<times> db_error list" where
  "createProtectivePair rows orderId symbol side slOrderId tpOrderId actualStopLoss actualTakeProfit
       finalQuantity now =
     (let positionOrderId = (case orderId of None \<Rightarrow> [] | Some s \<Rightarrow> s) in
      case (case slOrderId of
              None \<Rightarrow> Inr rows
            | Some sl \<Rightarrow>
                if sl \<noteq> []
                then insert_price_order rows sl symbol side StopLoss actualStopLoss finalQuantity
                       Active now (Some positionOrderId)
                else Inr rows) of
        Inl dbError \<Rightarrow> (rows, [dbError])
      | Inr rows1 \<Rightarrow>
          (case (case tpOrderId of
                   None \<Rightarrow> Inr rows1
                 | Some tp \<Rightarrow>
                     if tp \<noteq> []
                     then insert_price_order rows1 tp symbol side TakeProfit actualTakeProfit
                            finalQuantity Active now (Some positionOrderId)
                     else Inr rows1) of
             Inl dbError \<Rightarrow> (rows1, [dbError])
           | Inr rows2 \<Rightarrow> (rows2, [])))"

subsection \<open>replaceProtectivePair (the excerpt of stopLossManagement.ts)\<close>

text \<open>
  Step 0: \<open>SELECT position_order_id FROM price_orders WHERE symbol = ? AND status = 'active'
  AND position_order_id IS NOT NULL LIMIT 1\<close>, taken in table order, and kept when truthy.
\<close>

definition recover_position_order_id :: "price_order list \<Rightarrow> string \<Rightarrow> string option" where
  "recover_position_order_id rows symbol =
     (case filter (\<lambda>r. po_symbol r = symbol \<and> po_status r = Active \<and> po_position_order_id r \<noteq> None)
             rows of
        [] \<Rightarrow> None
      | oldOrder # _ \<Rightarrow>
          if truthy_text (po_position_order_id oldOrder) then po_position_order_id oldOrder else None)"

text \<open>Step 1: \<open>UPDATE price_orders SET status = 'cancelled', updated_at = ? WHERE symbol = ?
  AND status = 'active'\<close>.\<close>

definition cancel_active :: "price_order list \<Rightarrow> string \<Rightarrow> int \<Rightarrow> price_order list" where
  "cancel_active rows symbol now =
     map (\<lambda>r. if po_symbol r = symbol \<and> po_status r = Active
              then r\<lparr>po_status := Cancelled, po_updated_at := Some now\<rparr> else r) rows"

text \<open>
  One call: the venue's answer (\<open>result.stopLossOrderId\<close>, \<open>result.takeProfitOrderId\<close>),
  the requested prices \<open>stopLoss\<close> and \<open>takeProfit\<close> (absent when that leg is not moved),
  \<open>parseFloat(position.size)\<close> and the timestamp.
\<close>

record replace_call =
  stopLossOrderId :: "string option"
  takeProfitOrderId :: "string option"
  stopLoss :: "real option"
  takeProfit :: "real option"
  positionSize :: real
  calledAt :: int

text \<open>
  Step 2 inserts a leg when both its venue id and its price are truthy. The statements are
  not inside a \<open>try\<close>: a database error ends the call, with the ledger as the statements
  before it left it. The result is the ledger and the error thrown, if any.
\<close>

definition replaceProtectivePair ::
  "price_order list \<Rightarrow> string \<Rightarrow> replace_call \<Rightarrow> price_order list \<times> db_error option" where
  "replaceProtectivePair rows symbol call =
     (let positionOrderId = recover_position_order_id rows symbol;
          rows1 = cancel_active rows symbol (calledAt call);
          side = (if 0 < positionSize call then Long else Short);
          quantity = \<bar>positionSize call\<bar>
      in
      case (case (stopLossOrderId call, stopLoss call) of
              (Some sl, Some price) \<Rightarrow>
                if sl \<noteq> [] \<and> price \<noteq> 0
                then insert_price_order rows1 sl symbol side StopLoss price quantity Active
                       (calledAt call) positionOrderId
                else Inr rows1
            | _ \<Rightarrow> Inr rows1) of
        Inl err \<Rightarrow> (rows1, Some err)
      | Inr rows2 \<Rightarrow>
          (case (case (takeProfitOrderId call, takeProfit call) of
                   (Some tp, Some price) \<Rightarrow>
                     if tp \<noteq> [] \<and> price \<noteq> 0
                     then insert_price_order rows2 tp symbol side TakeProfit price quantity Active
                            (calledAt call) positionOrderId
                     else Inr rows2
                 | _ \<Rightarrow> Inr rows2) of
             Inl err \<Rightarrow> (rows2, Some err)
           | Inr rows3 \<Rightarrow> (rows3, None)))"

text \<open>A serialized chain of replacements for one symbol, each on the ledger the last left.\<close>

fun replace_chain :: "price_order list \<Rightarrow> string \<Rightarrow> replace_call list \<Rightarrow> price_order list" where
  "replace_chain rows symbol [] = rows"
| "replace_chain rows symbol (call # calls) =
     replace_chain (fst (replaceProtectivePair rows symbol call)) symbol calls"

text \<open>The active rows of one symbol and leg type.\<close>

definition active_legs :: "price_order list \<Rightarrow> string \<Rightarrow> leg_type \<Rightarrow> price_order list" where
  "active_legs rows symbol leg =
     filter (\<lambda>r. po_symbol r = symbol \<and> po_status r = Active \<and> po_type r = leg) rows"

subsection \<open>Sample calls\<close>

definition move_stop_only :: replace_call where
  "move_stop_only =
     \<lparr>stopLossOrderId = Some ''SL002'', takeProfitOrderId = None, stopLoss = Some 990,
      takeProfit = None, positionSize = 1250, calledAt = 20\<rparr>"

definition move_both :: replace_call where
  "move_both =
     \<lparr>stopLossOrderId = Some ''SL003'', takeProfitOrderId = Some ''TP003'', stopLoss = Some 992,
      takeProfit = Some 1001, positionSize = 1250, calledAt = 30\<rparr>"

subsection \<open>Shapes of calls and rows used in the statements\<close>

text \<open>A call that moves both legs: both venue ids and both prices are truthy.\<close>

definition complete_call :: "replace_call \<Rightarrow> bool" where
  "complete_call call \<longleftrightarrow>
     truthy_text (stopLossOrderId call) \<and> truthy_text (takeProfitOrderId call)
     \<and> truthy_num (stopLoss call) \<and> truthy_num (takeProfit call)"

definition call_order_ids :: "replace_call \<Rightarrow> string list" where
  "call_order_ids call =
     (case stopLossOrderId call of None \<Rightarrow> [] | Some sl \<Rightarrow> [sl])
     @ (case takeProfitOrderId call of None \<Rightarrow> [] | Some tp \<Rightarrow> [tp])"

definition superseded_leg :: "string \<Rightarrow> string \<Rightarrow> price_order \<Rightarrow> bool" where
  "superseded_leg symbol pid r \<longleftrightarrow>
     po_symbol r = symbol \<and> po_position_order_id r = Some pid \<and> po_status r = Cancelled
     \<and> po_updated_at r \<noteq> None"

definition active_leg :: "string \<Rightarrow> string \<Rightarrow> leg_type \<Rightarrow> price_order \<Rightarrow> bool" where
  "active_leg symbol pid leg r \<longleftrightarrow>
     po_symbol r = symbol \<and> po_position_order_id r = Some pid \<and> po_status r = Active
     \<and> po_type r = leg"

definition stale_stop_row :: price_order where
  "stale_stop_row =
     \<lparr>po_id = 1, po_order_id = ''SL000'', po_position_order_id = Some ''99999'', po_symbol = ''BNB'',
      po_side = Long, po_type = StopLoss, po_trigger_price = 950, po_order_price = 0,
      po_quantity = 1000, po_status = Active, po_created_at = 1, po_updated_at = None,
      po_triggered_at = None\<rparr>"

section \<open>fix-duplicate-trades\<close>

text \<open>
  A row of \<open>trades\<close> with the columns the script reads. \<open>timestamp\<close> is the stored
  text, as \<open>created_at\<close> of the close events is, and \<open>ORDER BY timestamp ASC\<close> is the
  ascending order of the texts.
\<close>

record trade =
  tr_id :: nat
  tr_order_id :: string
  tr_symbol :: string
  tr_type :: string
  tr_timestamp :: string

record repair_db =
  trades :: "trade list"
  close_events :: "close_event list"

text \<open>
  \<open>SELECT key, COUNT(*) AS count ... GROUP BY key HAVING count > 1 ORDER BY count DESC\<close>
  over the rows given: the keys carried by more than one row, largest group first.
\<close>

definition duplicate_keys :: "('r \<Rightarrow> 'k) \<Rightarrow> 'r list \<Rightarrow> 'k list" where
  "duplicate_keys key rows =
     (let counted = map (\<lambda>k. (k, length (filter (\<lambda>r. key r = k) rows))) (remdups (map key rows))
      in map fst (rev (sort_key snd (filter (\<lambda>(k, count). 1 < count) counted))))"

text \<open>\<open>DELETE FROM table WHERE id = ?\<close>\<close>

definition delete_by_id :: "('r \<Rightarrow> nat) \<Rightarrow> 'r list \<Rightarrow> nat \<Rightarrow> 'r list" where
  "delete_by_id ident rows delId = filter (\<lambda>r. ident r \<noteq> delId) rows"

text \<open>
  The body of the loop over the duplicated keys, the same for both tables: read the rows
  carrying the key with \<open>ORDER BY\<close> on the timestamp text ascending (rows of equal text
  in table order), keep the first, delete the others by id and add their number to
  \<open>totalDeleted\<close>. \<open>matches\<close> is the WHERE clause of the inner SELECT.
\<close>

definition repair_group ::
  "('r \<Rightarrow> nat) \<Rightarrow> ('r \<Rightarrow> string) \<Rightarrow> ('r \<Rightarrow> bool) \<Rightarrow> 'r list \<times> nat \<Rightarrow> 'r list \<times> nat" where
  "repair_group ident stamp matches state =
     (case state of (rows, totalDeleted) \<Rightarrow>
        (case sort_key stamp (filter matches rows) of
           [] \<Rightarrow> (rows, totalDeleted)
         | [keep] \<Rightarrow> (rows, totalDeleted)
         | keep # others \<Rightarrow>
             (let deleteIds = map ident others
              in (foldl (delete_by_id ident) rows deleteIds, totalDeleted + length deleteIds))))"

text \<open>
  The inner SELECT on \<open>trades\<close> is \<open>WHERE order_id = ?\<close>, without the \<open>type = 'close'\<close>
  of the scan; the scan on the close events skips NULL trigger order ids.
\<close>

definition repair_trades :: "string list \<Rightarrow> trade list \<times> nat \<Rightarrow> trade list \<times> nat" where
  "repair_trades duplicates state =
     foldl (\<lambda>st orderId. repair_group tr_id tr_timestamp (\<lambda>t. tr_order_id t = orderId) st)
       state duplicates"

definition repair_events ::
  "string list \<Rightarrow> close_event list \<times> nat \<Rightarrow> close_event list \<times> nat" where
  "repair_events duplicateEvents state =
     foldl (\<lambda>st triggerOrderId.
              repair_group ev_id ev_created_at (\<lambda>e. ev_trigger_order_id e = Some triggerOrderId) st)
       state duplicateEvents"

definition duplicate_trade_order_ids :: "trade list \<Rightarrow> string list" where
  "duplicate_trade_order_ids ts = duplicate_keys tr_order_id (filter (\<lambda>t. tr_type t = ''close'') ts)"

definition duplicate_event_trigger_ids :: "close_event list \<Rightarrow> string list" where
  "duplicate_event_trigger_ids es =
     duplicate_keys id (List.map_filter ev_trigger_order_id es)"

text \<open>
  \<open>main\<close> of the script (\<open>repairDuplicates\<close> in the specification), and how it ends: \<open>process.exit(0)\<close> right after the scan of \<open>trades\<close> found no
  duplicate, or the end of the \<open>try\<close> block with the number of rows deleted.
\<close>

datatype repair_outcome =
    ExitedNoDuplicateTrades repair_db
  | Repaired repair_db nat

definition fix_duplicate_trades_main :: "repair_db \<Rightarrow> repair_outcome" where
  "fix_duplicate_trades_main db =
     (let duplicates = duplicate_trade_order_ids (trades db) in
      if length duplicates = 0 then ExitedNoDuplicateTrades db
      else
        (case repair_trades duplicates (trades db, 0) of (trades', totalDeleted) \<Rightarrow>
           (let duplicateEvents = duplicate_event_trigger_ids (close_events db) in
            case (if 0 < length duplicateEvents
                  then repair_events duplicateEvents (close_events db, totalDeleted)
                  else (close_events db, totalDeleted)) of
              (events', totalDeleted') \<Rightarrow>
                Repaired \<lparr>trades = trades', close_events = events'\<rparr> totalDeleted')))"

text \<open>The database a run leaves behind.\<close>

definition db_after :: "repair_outcome \<Rightarrow> repair_db" where
  "db_after outcome = (case outcome of ExitedNoDuplicateTrades db \<Rightarrow> db | Repaired db n \<Rightarrow> db)"

text \<open>
  The row of a group that the repair keeps: the first of the group in ascending order of
  the timestamp text (among rows of equal text, the first in table order).
\<close>

definition kept_row :: "('r \<Rightarrow> string) \<Rightarrow> ('r \<Rightarrow> bool) \<Rightarrow> 'r list \<Rightarrow> 'r list" where
  "kept_row stamp matches rows = take 1 (sort_key stamp (filter matches rows))"

subsection \<open>Sample data for the repair\<close>

text \<open>
  One fill recorded twice, five milliseconds apart, as a close event and as a close trade;
  and one fill recorded once in the offset form, at 02:56:03 UTC, and once in the UTC form,
  four minutes later at 03:00:00 UTC.
\<close>

definition twice_recorded_close :: "close_event list" where
  "twice_recorded_close =
     [\<lparr>ev_id = 1, ev_trigger_order_id = Some ''7001'', ev_symbol = ''AVAX'', ev_pnl = Some (-5),
       ev_pnl_percent = Some (-8), ev_close_reason = ''stop_loss'',
       ev_created_at = ''2025-11-21T02:56:03.000Z''\<rparr>,
      \<lparr>ev_id = 2, ev_trigger_order_id = Some ''7001'', ev_symbol = ''AVAX'', ev_pnl = Some (-5),
       ev_pnl_percent = Some (-8), ev_close_reason = ''stop_loss'',
       ev_created_at = ''2025-11-21T02:56:03.005Z''\<rparr>]"

definition one_close_trade :: "trade list" where
  "one_close_trade =
     [\<lparr>tr_id = 1, tr_order_id = ''7001'', tr_symbol = ''AVAX'', tr_type = ''close'',
       tr_timestamp = ''2025-11-21T02:56:03.000Z''\<rparr>]"

definition twice_recorded_trade :: "trade list" where
  "twice_recorded_trade =
     [\<lparr>tr_id = 1, tr_order_id = ''7001'', tr_symbol = ''AVAX'', tr_type = ''close'',
       tr_timestamp = ''2025-11-21T02:56:03.000Z''\<rparr>,
      \<lparr>tr_id = 2, tr_order_id = ''7001'', tr_symbol = ''AVAX'', tr_type = ''close'',
       tr_timestamp = ''2025-11-21T02:56:03.005Z''\<rparr>]"

definition offset_form_trade :: trade where
  "offset_form_trade =
     \<lparr>tr_id = 1, tr_order_id = ''7003'', tr_symbol = ''LTC'', tr_type = ''close'',
      tr_timestamp = ''2025-11-21T10:56:03+08:00''\<rparr>"

definition utc_form_trade :: trade where
  "utc_form_trade =
     \<lparr>tr_id = 2, tr_order_id = ''7003'', tr_symbol = ''LTC'', tr_type = ''close'',
      tr_timestamp = ''2025-11-21T03:00:00.000Z''\<rparr>"

section \<open>Properties of the cooldown gate\<close>

lemma cooldown_window_open:
  "cooldown_window closedAtText hours now r =
     (if window_open closedAtText hours now
      then (case js_date_parse closedAtText of
              None \<Rightarrow> None
            | Some closedTime \<Rightarrow> Some (in_cooldown r (closedTime + hours_ms hours) now))
      else None)"
  by (simp add: cooldown_window_def window_open_def Let_def split: option.splits)

lemma evaluate_losses_first_open_rule:
  "evaluate_losses rows now = first_open_rule_verdict (map to_loss rows) now"
proof (cases rows)
  case Nil
  then show ?thesis
    by (simp add: evaluate_losses_def first_open_rule_verdict_def cooldown_rules_def)
next
  case (Cons r rs)
  then show ?thesis
    by (simp add: evaluate_losses_def first_open_rule_verdict_def cooldown_rules_def
        rule1_def rule2_def rule3_def rule4_def cooldown_window_open window_open_def
        split: option.splits)
qed

lemma ceil_tenth_upper: "real_of_int \<lceil>x * 10\<rceil> / 10 < x + 1 / 10" for x :: real
proof -
  have "real_of_int \<lceil>x * 10\<rceil> < x * 10 + 1" by linarith
  then show ?thesis by simp
qed

text \<open>\<open>remainingHours\<close> is the hours left, rounded up to one decimal.\<close>

lemma remaining_hours_rounds_up:
  "real_of_int (until - now) / 3600000 \<le> remaining_hours until now"
  "remaining_hours until now < real_of_int (until - now) / 3600000 + 1 / 10"
  "\<exists>k. remaining_hours until now = real_of_int k / 10"
proof -
  show "real_of_int (until - now) / 3600000 \<le> remaining_hours until now"
    unfolding remaining_hours_def by (simp add: field_simps)
  show "remaining_hours until now < real_of_int (until - now) / 3600000 + 1 / 10"
    using ceil_tenth_upper [of "real_of_int (until - now) / 3600000"]
    by (simp add: remaining_hours_def)
  show "\<exists>k. remaining_hours until now = real_of_int k / 10"
    unfolding remaining_hours_def by blast
qed

text \<open>
  On the rows the read returned: a most recent loss of at least 15 percent, closed at
  \<open>t\<close>, answers in-cooldown until \<open>t + 12h\<close> while that window is open; and when the
  read returned that loss alone, the answer from \<open>t + 12h\<close> on is not-in-cooldown.
\<close>

lemma severe_loss_window_open:
  assumes "js_date_parse (ev_created_at e) = Some t"
      and "15 \<le> \<bar>case ev_pnl_percent e of None \<Rightarrow> 0 | Some p \<Rightarrow> p\<bar>"
      and "now < t + hours_ms 12"
  shows "evaluate_losses (e # rest) now =
           in_cooldown (SingleLossOverThreshold \<bar>case ev_pnl_percent e of None \<Rightarrow> 0 | Some p \<Rightarrow> p\<bar>)
             (t + hours_ms 12) now"
  using assms
  by (simp add: evaluate_losses_def to_loss_def rule1_def cooldown_window_def)

lemma single_loss_window_closed:
  assumes "js_date_parse (ev_created_at e) = Some t"
      and "t + hours_ms 12 \<le> now"
  shows "evaluate_losses [e] now = not_in_cooldown"
  using assms
  by (auto simp: evaluate_losses_def to_loss_def rule1_def rule2_def rule3_def rule4_def
      cooldown_window_def hours_ms_def split: option.splits)

subsection \<open>The window of the read\<close>

lemma sample_clock:
  "toISOString clock_now = ''2026-11-03T03:10:28.000Z''"
  "sqlite_datetime (clock_now - hours_ms 24) = ''2026-11-02 03:10:28''"
  by code_simp+

lemma sample_ages:
  "js_date_parse (ev_created_at avax_loss_25h_ago) = Some (clock_now - 25 * hour)"
  "js_date_parse (ev_created_at avax_loss_13h_ago) = Some (clock_now - 13 * hour)"
  "js_date_parse (ev_created_at avax_severe_loss_13h_ago) = Some (clock_now - 13 * hour)"
  by code_simp+

text \<open>
  C2. The claim has \<open>isSymbolInCooldown\<close> judge the symbol's loss events of the trailing
  24 hours. The read compares the stored \<open>created_at\<close>, an ISO text with \<open>T\<close> after the
  date, with the text of \<open>datetime('now', '-24 hours')\<close>, which has a space there; a
  \<open>T\<close> sorts after a space, so every loss of the cutoff's date passes, whatever its time.
  With the clock at 2026-11-03T03:10:28Z, a loss of 8 percent 13 hours old and one of 6
  percent 25 hours old, the read returns both (most recent first), rule 2 finds two losses
  and the answer is in-cooldown for 11 more hours; the rules over the one loss of the
  trailing 24 hours answer not-in-cooldown.
\<close>

theorem cooldown_reads_loss_older_than_24h:
  "run_query clock_now avax_table (LossQuery ''AVAX'' 24 True)
     = [avax_loss_13h_ago, avax_loss_25h_ago]
   \<and> js_date_parse (ev_created_at avax_loss_25h_ago) = Some (clock_now - 25 * hour)
   \<and> js_date_parse (ev_created_at avax_loss_13h_ago) = Some (clock_now - 13 * hour)
   \<and> fst (isSymbolInCooldown (table_client clock_now avax_table) ''AVAX'' clock_now)
       = \<lparr>inCooldown = True, reason = Some (LossesIn24h 2),
          cooldownUntil = Some (clock_now + 11 * hour), remainingHours = Some 11\<rparr>
   \<and> first_open_rule_verdict (map to_loss [avax_loss_13h_ago]) clock_now
       = \<lparr>inCooldown = False, reason = None, cooldownUntil = None, remainingHours = None\<rparr>"
proof -
  have rows: "run_query clock_now avax_table (LossQuery ''AVAX'' 24 True)
     = [avax_loss_13h_ago, avax_loss_25h_ago]"
    by code_simp
  have verdict: "fst (isSymbolInCooldown (table_client clock_now avax_table) ''AVAX'' clock_now)
       = \<lparr>inCooldown = True, reason = Some (LossesIn24h 2),
          cooldownUntil = Some (clock_now + 11 * hour), remainingHours = Some 11\<rparr>"
    by code_simp
  have claimed: "first_open_rule_verdict (map to_loss [avax_loss_13h_ago]) clock_now
       = \<lparr>inCooldown = False, reason = None, cooldownUntil = None, remainingHours = None\<rparr>"
    by code_simp
  show ?thesis
    using rows verdict claimed sample_ages(1,2) by simp
qed

text \<open>
  C4. The claim has a symbol whose only loss of the trailing 24 hours is one of at least 15
  percent closed at \<open>t\<close> out of cooldown from \<open>t + 12h\<close> on. With the clock at
  2026-11-03T03:10:28Z, a loss of 18 percent closed 13 hours before and an older loss closed
  25 hours before, on the date of the cutoff, the read returns both rows: the 12-hour
  window of rule 1 has elapsed, rule 2 finds two losses, and the answer is in-cooldown for
  11 more hours.
\<close>

theorem severe_loss_in_cooldown_after_12h:
  "run_query clock_now avax_severe_table (LossQuery ''AVAX'' 24 True)
     = [avax_severe_loss_13h_ago, avax_loss_25h_ago]
   \<and> js_date_parse (ev_created_at avax_severe_loss_13h_ago) = Some (clock_now - 13 * hour)
   \<and> js_date_parse (ev_created_at avax_loss_25h_ago) = Some (clock_now - 25 * hour)
   \<and> fst (isSymbolInCooldown (table_client clock_now avax_severe_table) ''AVAX'' clock_now)
       = \<lparr>inCooldown = True, reason = Some (LossesIn24h 2),
          cooldownUntil = Some (clock_now + 11 * hour), remainingHours = Some 11\<rparr>
   \<and> evaluate_losses [avax_severe_loss_13h_ago] clock_now
       = \<lparr>inCooldown = False, reason = None, cooldownUntil = None, remainingHours = None\<rparr>"
proof -
  have rows: "run_query clock_now avax_severe_table (LossQuery ''AVAX'' 24 True)
     = [avax_severe_loss_13h_ago, avax_loss_25h_ago]"
    by code_simp
  have verdict: "fst (isSymbolInCooldown (table_client clock_now avax_severe_table) ''AVAX'' clock_now)
       = \<lparr>inCooldown = True, reason = Some (LossesIn24h 2),
          cooldownUntil = Some (clock_now + 11 * hour), remainingHours = Some 11\<rparr>"
    by code_simp
  have alone: "evaluate_losses [avax_severe_loss_13h_ago] clock_now
       = \<lparr>inCooldown = False, reason = None, cooldownUntil = None, remainingHours = None\<rparr>"
    by code_simp
  show ?thesis
    using rows verdict alone sample_ages(1,3) by simp
qed

text \<open>
  C5. Whenever the read of the event store throws, \<open>isSymbolInCooldown\<close> answers
  not-in-cooldown and \<open>getSymbolLossStats\<close> (whichever of its two reads throws) answers
  the all-zero, all-false statistics; in both the error goes to the log and the caller gets
  an ordinary result.
\<close>

theorem fail_open_on_read_error:
  "(db (LossQuery symbol 24 True) = Inl err \<longrightarrow>
      isSymbolInCooldown db symbol now =
        (\<lparr>inCooldown = False, reason = None, cooldownUntil = None, remainingHours = None\<rparr>,
         [LogError (CooldownCheckFailed symbol) err]))
   \<and> (db (LossQuery symbol 24 False) = Inl err
        \<or> (\<exists>rows. db (LossQuery symbol 24 False) = Inr rows) \<and> db (LossQuery symbol 48 False) = Inl err \<longrightarrow>
      getSymbolLossStats db symbol =
        (\<lparr>losses24h = 0, losses48h = 0, totalLoss24h = 0, totalLoss48h = 0,
          avgLossPercent24h = 0, hasReversalLoss = False\<rparr>,
         [LogError (LossStatsFailed symbol) err]))"
  by (auto simp: isSymbolInCooldown_def getSymbolLossStats_def not_in_cooldown_def zero_stats_def)

theorem fail_open_on_read_error_witness:
  "failing_client (DbError ''SQLITE_BUSY'') (LossQuery ''AVAX'' 24 True) = Inl (DbError ''SQLITE_BUSY'')
   \<and> failing_client (DbError ''SQLITE_BUSY'') (LossQuery ''AVAX'' 24 False) = Inl (DbError ''SQLITE_BUSY'')
   \<and> inCooldown (fst (isSymbolInCooldown (failing_client (DbError ''SQLITE_BUSY'')) ''AVAX'' 0)) = False
   \<and> snd (isSymbolInCooldown (failing_client (DbError ''SQLITE_BUSY'')) ''AVAX'' 0)
       = [LogError (CooldownCheckFailed ''AVAX'') (DbError ''SQLITE_BUSY'')]
   \<and> losses24h (fst (getSymbolLossStats (failing_client (DbError ''SQLITE_BUSY'')) ''AVAX'')) = 0"
  using fail_open_on_read_error [of "failing_client (DbError ''SQLITE_BUSY'')" "''AVAX''"
      "DbError ''SQLITE_BUSY''" 0]
  by (simp add: failing_client_def)

section \<open>Properties of the loss penalty\<close>

text \<open>
  C3, as the claim words it, fails: the tier bonus is not independent of \<open>losses24h\<close>.
  With no loss in 24 hours and an average loss of 22 percent the code yields 0, where four
  independent components would give 15.
\<close>

theorem penalty_tier_not_independent_counterexample:
  "calculateHistoricalLossPenalty
     \<lparr>losses24h = 0, losses48h = 0, totalLoss24h = 0, totalLoss48h = 0,
      avgLossPercent24h = 22, hasReversalLoss = False\<rparr> = 0
   \<and> penalty_four_independent
     \<lparr>losses24h = 0, losses48h = 0, totalLoss24h = 0, totalLoss48h = 0,
      avgLossPercent24h = 22, hasReversalLoss = False\<rparr> = 15"
  by (simp add: calculateHistoricalLossPenalty_def penalty_four_independent_def tier_bonus_def)

text \<open>
  C3, amended. The penalty is 20 plus exactly one tier bonus (15 from an average loss of 20
  percent, 10 from 15, 5 from 10, else 0) when \<open>losses24h > 0\<close> and neither of them
  otherwise; plus 20 when \<open>losses48h \<ge> 2\<close>; plus 15 when \<open>hasReversalLoss\<close>. The
  scenario of the specification yields 50, and the penalty is never negative.
\<close>

theorem penalty_components:
  "calculateHistoricalLossPenalty stats =
     (if 0 < losses24h stats then 20 + tier_bonus (avgLossPercent24h stats) else 0)
     + (if 2 \<le> losses48h stats then 20 else 0)
     + (if hasReversalLoss stats then 15 else 0)
   \<and> calculateHistoricalLossPenalty
        \<lparr>losses24h = 1, losses48h = 1, totalLoss24h = t24, totalLoss48h = t48,
         avgLossPercent24h = 22, hasReversalLoss = True\<rparr> = 50
   \<and> 0 \<le> calculateHistoricalLossPenalty stats"
  by (simp add: calculateHistoricalLossPenalty_def tier_bonus_def Let_def)

text \<open>
  C9. The penalty is a function of the statistics (equal inputs, equal results), and it is
  monotone in \<open>avgLossPercent24h\<close>: raising that field alone never lowers the penalty.
\<close>

theorem penalty_deterministic_monotone:
  "(s1 = s2 \<longrightarrow> calculateHistoricalLossPenalty s1 = calculateHistoricalLossPenalty s2)
   \<and> (a \<le> b \<longrightarrow>
        calculateHistoricalLossPenalty (stats\<lparr>avgLossPercent24h := a\<rparr>)
        \<le> calculateHistoricalLossPenalty (stats\<lparr>avgLossPercent24h := b\<rparr>))"
  by (simp add: calculateHistoricalLossPenalty_def Let_def)

theorem penalty_deterministic_monotone_witness:
  "(9::real) \<le> 21 \<and>
   calculateHistoricalLossPenalty
     \<lparr>losses24h = 1, losses48h = 0, totalLoss24h = 0, totalLoss48h = 0,
      avgLossPercent24h = 9, hasReversalLoss = False\<rparr> = 20 \<and>
   calculateHistoricalLossPenalty
     \<lparr>losses24h = 1, losses48h = 0, totalLoss24h = 0, totalLoss48h = 0,
      avgLossPercent24h = 21, hasReversalLoss = False\<rparr> = 35"
  using penalty_deterministic_monotone [of
     "\<lparr>losses24h = 1, losses48h = 0, totalLoss24h = 0, totalLoss48h = 0,
      avgLossPercent24h = 9, hasReversalLoss = False\<rparr>"
     "\<lparr>losses24h = 1, losses48h = 0, totalLoss24h = 0, totalLoss48h = 0,
      avgLossPercent24h = 9, hasReversalLoss = False\<rparr>" 9 21
     "\<lparr>losses24h = 1, losses48h = 0, totalLoss24h = 0, totalLoss48h = 0,
      avgLossPercent24h = 0, hasReversalLoss = False\<rparr>"]
  by (simp add: calculateHistoricalLossPenalty_def Let_def)

section \<open>Properties of the reversal classifier\<close>

lemma startsWith_iff_append: "startsWith s p \<longleftrightarrow> (\<exists>rest. s = p @ rest)"
proof
  assume "startsWith s p"
  then have "s = p @ drop (length p) s"
    unfolding startsWith_def by (metis append_take_drop_id)
  then show "\<exists>rest. s = p @ rest" ..
next
  assume "\<exists>rest. s = p @ rest"
  then show "startsWith s p"
    unfolding startsWith_def by auto
qed

text \<open>
  C6. \<open>detectReversal\<close> is true exactly when the entry state is defined and either the
  position is long, the entry state starts with \<open>uptrend\<close> and the current state starts
  with \<open>downtrend\<close>, or the position is short, the entry state starts with \<open>downtrend\<close>
  and the current state starts with \<open>uptrend\<close>; with an undefined entry state it is false
  whatever the current state. The three examples of the specification are included.
\<close>

theorem detectReversal_iff:
  "(detectReversal positionSide entryState currentState \<longleftrightarrow>
      (\<exists>entry. entryState = Some entry \<and>
         (positionSide = Long \<and> (\<exists>x. entry = ''uptrend'' @ x) \<and> (\<exists>y. currentState = ''downtrend'' @ y)
          \<or> positionSide = Short \<and> (\<exists>x. entry = ''downtrend'' @ x) \<and> (\<exists>y. currentState = ''uptrend'' @ y))))
   \<and> detectReversal positionSide None currentState = False
   \<and> detectReversal Long (Some ''uptrend_x'') ''downtrend_y'' = True
   \<and> detectReversal Long (Some ''uptrend_x'') ''uptrend_y'' = False
   \<and> detectReversal Long None ''downtrend_y'' = False"
proof -
  have main: "detectReversal positionSide entryState currentState \<longleftrightarrow>
      (\<exists>entry. entryState = Some entry \<and>
         (positionSide = Long \<and> startsWith entry ''uptrend'' \<and> startsWith currentState ''downtrend''
          \<or> positionSide = Short \<and> startsWith entry ''downtrend'' \<and> startsWith currentState ''uptrend''))"
  proof (cases entryState)
    case None
    then show ?thesis by (simp add: detectReversal_def)
  next
    case (Some entry)
    show ?thesis
    proof (cases "entry = []")
      case True
      with Some show ?thesis by (simp add: detectReversal_def startsWith_def)
    next
      case False
      with Some show ?thesis
        by (cases positionSide) (auto simp: detectReversal_def Let_def)
    qed
  qed
  have ex1: "detectReversal Long (Some ''uptrend_x'') ''downtrend_y'' = True"
    by (simp add: detectReversal_def startsWith_def)
  have ex2: "detectReversal Long (Some ''uptrend_x'') ''uptrend_y'' = False"
    by (simp add: detectReversal_def startsWith_def)
  have ex3: "detectReversal side None cur = False" for side cur
    by (simp add: detectReversal_def)
  show ?thesis
    using main ex1 ex2 ex3 [of positionSide currentState] ex3 [of Long "''downtrend_y''"]
    by (simp add: startsWith_iff_append)
qed

section \<open>Properties of the reconciliation\<close>

lemma sync_leg_cases:
  "ledger (sync_leg exchange now None position leg legOrderId legPrice st) = ledger st
   \<or> (\<exists>orderId price venueStatus.
        legOrderId = Some orderId \<and> legPrice = Some price \<and> orderId \<noteq> [] \<and> price \<noteq> 0
        \<and> orderId \<notin> set (map po_order_id (ledger st))
        \<and> exchange orderId = Inr venueStatus
        \<and> insert_price_order (ledger st) orderId (pos_symbol position) (pos_side position) leg
              price (pos_quantity position) (ledger_status venueStatus) now None
            = Inr (ledger (sync_leg exchange now None position leg legOrderId legPrice st)))"
  by (auto simp: sync_leg_def truthy_text_def select_id_by_order_id_def filter_empty_conv
      split: option.splits list.splits sum.splits)

lemma insert_price_order_Inr:
  "insert_price_order rows orderId symbol side leg price qty status now poid = Inr rows'
   \<Longrightarrow> \<exists>r. rows' = rows @ [r] \<and> po_order_id r = orderId \<and> orderId \<notin> set (map po_order_id rows)"
  by (auto simp: insert_price_order_def split: if_splits)

lemma sync_leg_prefix:
  "\<exists>added. ledger (sync_leg exchange now None position leg legOrderId legPrice st) = ledger st @ added"
  using sync_leg_cases [of exchange now position leg legOrderId legPrice st]
  by (auto dest!: insert_price_order_Inr)

lemma sync_positions_step:
  "sync_positions exchange clock i (p # ps) st =
     sync_positions exchange clock (Suc i) ps
       (sync_leg exchange (clock i) None p TakeProfit (pos_tp_order_id p) (pos_profit_target p)
          (sync_leg exchange (clock i) None p StopLoss (pos_sl_order_id p) (pos_stop_loss p) st))"
  by (simp add: selected_entry_order_id_def truthy_text_def Let_def)

declare sync_positions.simps(2) [simp del]

lemma sync_positions_prefix:
  "\<exists>added. ledger (sync_positions exchange clock i ps st) = ledger st @ added"
proof (induction ps arbitrary: i st)
  case Nil
  then show ?case by simp
next
  case (Cons p ps)
  let ?st1 = "sync_leg exchange (clock i) None p StopLoss (pos_sl_order_id p) (pos_stop_loss p) st"
  let ?st2 = "sync_leg exchange (clock i) None p TakeProfit (pos_tp_order_id p) (pos_profit_target p) ?st1"
  obtain a1 where a1: "ledger ?st1 = ledger st @ a1"
    using sync_leg_prefix by blast
  obtain a2 where a2: "ledger ?st2 = ledger ?st1 @ a2"
    using sync_leg_prefix by blast
  obtain a3 where a3: "ledger (sync_positions exchange clock (Suc i) ps ?st2) = ledger ?st2 @ a3"
    using Cons.IH by blast
  have "sync_positions exchange clock i (p # ps) st = sync_positions exchange clock (Suc i) ps ?st2"
    by (rule sync_positions_step)
  then show ?case
    using a1 a2 a3 by simp
qed

text \<open>
  C10. Reconciliation leaves every row that was in the ledger before the run in its place
  and unchanged in every field. The backfill of \<open>position_order_id\<close> is guarded by
  \<open>!existingOrder.position_order_id && positionOrderId\<close>; the positions SELECT does not
  return \<open>entry_order_id\<close>, so \<open>positionOrderId\<close> is null and the UPDATE is not
  reached: no stored \<open>position_order_id\<close> (null or not) is overwritten, and no other
  field of an existing row is touched.
\<close>

theorem sync_keeps_existing_rows:
  "take (length rows) (ledger (syncPriceOrders exchange clock positions rows)) = rows"
proof -
  obtain added where "ledger (syncPriceOrders exchange clock positions rows) = rows @ added"
    unfolding syncPriceOrders_def
    using sync_positions_prefix
      [of exchange clock 0 "map select_position_columns positions"
          "\<lparr>ledger = rows, syncCount = 0, skipCount = 0\<rparr>"]
    by auto
  then show ?thesis by simp
qed

lemma leg_settled_mono:
  "leg_settled exchange rows lo lp \<Longrightarrow> leg_settled exchange (rows @ added) lo lp"
  by (auto simp: leg_settled_def split: option.splits)

lemma filter_Cons_member: "filter P xs = z # zs \<Longrightarrow> P z \<and> z \<in> set xs"
proof -
  assume "filter P xs = z # zs"
  then have "z \<in> set (filter P xs)" by simp
  then show ?thesis by simp
qed

lemma sync_leg_settles:
  "leg_settled exchange (ledger (sync_leg exchange now None position leg lo lp st)) lo lp"
proof (cases "\<exists>orderId price. lo = Some orderId \<and> lp = Some price \<and> orderId \<noteq> [] \<and> price \<noteq> 0")
  case False
  then show ?thesis
    by (auto simp: leg_settled_def split: option.splits)
next
  case True
  then obtain orderId price where leg: "lo = Some orderId" "lp = Some price" "orderId \<noteq> []" "price \<noteq> 0"
    by blast
  show ?thesis
  proof (cases "orderId \<in> set (map po_order_id (ledger st))")
    case True
    then have "filter (\<lambda>r. po_order_id r = orderId) (ledger st) \<noteq> []"
      by (auto simp: filter_empty_conv)
    then have "ledger (sync_leg exchange now None position leg lo lp st) = ledger st"
      using leg
      by (auto simp: sync_leg_def select_id_by_order_id_def truthy_text_def Let_def
          split: list.splits)
    with True leg show ?thesis
      by (simp add: leg_settled_def)
  next
    case absent: False
    then have none: "select_id_by_order_id (ledger st) orderId = []"
      by (auto simp: select_id_by_order_id_def filter_empty_conv)
    show ?thesis
    proof (cases "exchange orderId")
      case (Inl err)
      then show ?thesis using leg by (simp add: leg_settled_def)
    next
      case (Inr venueStatus)
      then show ?thesis
        using leg none absent
        by (simp add: leg_settled_def sync_leg_def insert_price_order_def)
    qed
  qed
qed

lemma sync_leg_settled_id:
  "leg_settled exchange (ledger st) lo lp \<Longrightarrow>
   ledger (sync_leg exchange now None position leg lo lp st) = ledger st"
  using sync_leg_cases [of exchange now position leg lo lp st]
  by (auto simp: leg_settled_def)

lemma sync_positions_settled_id:
  "list_all (position_settled exchange (ledger st)) ps \<Longrightarrow>
   ledger (sync_positions exchange clock i ps st) = ledger st"
proof (induction ps arbitrary: i st)
  case Nil
  then show ?case by simp
next
  case (Cons p ps)
  let ?st1 = "sync_leg exchange (clock i) None p StopLoss (pos_sl_order_id p) (pos_stop_loss p) st"
  let ?st2 = "sync_leg exchange (clock i) None p TakeProfit (pos_tp_order_id p) (pos_profit_target p) ?st1"
  from Cons.prems have p: "position_settled exchange (ledger st) p"
    and ps: "list_all (position_settled exchange (ledger st)) ps" by simp_all
  have l1: "ledger ?st1 = ledger st"
    using p by (simp add: position_settled_def sync_leg_settled_id)
  have l2: "ledger ?st2 = ledger st"
    using p l1 by (simp add: position_settled_def sync_leg_settled_id)
  have step: "sync_positions exchange clock i (p # ps) st = sync_positions exchange clock (Suc i) ps ?st2"
    by (rule sync_positions_step)
  show ?case
    using Cons.IH [of ?st2 "Suc i"] ps l2 step by simp
qed

lemma position_settled_mono:
  "position_settled exchange rows p \<Longrightarrow> position_settled exchange (rows @ added) p"
  by (simp add: position_settled_def leg_settled_mono)

lemma sync_positions_settles:
  "list_all (position_settled exchange (ledger (sync_positions exchange clock i ps st))) ps"
proof (induction ps arbitrary: i st)
  case Nil
  then show ?case by simp
next
  case (Cons p ps)
  let ?st1 = "sync_leg exchange (clock i) None p StopLoss (pos_sl_order_id p) (pos_stop_loss p) st"
  let ?st2 = "sync_leg exchange (clock i) None p TakeProfit (pos_tp_order_id p) (pos_profit_target p) ?st1"
  let ?fin = "sync_positions exchange clock (Suc i) ps ?st2"
  have step: "sync_positions exchange clock i (p # ps) st = ?fin"
    by (rule sync_positions_step)
  obtain a2 where a2: "ledger ?st2 = ledger ?st1 @ a2"
    using sync_leg_prefix by blast
  obtain a3 where a3: "ledger ?fin = ledger ?st2 @ a3"
    using sync_positions_prefix by blast
  have s1: "leg_settled exchange (ledger ?st1) (pos_sl_order_id p) (pos_stop_loss p)"
    by (rule sync_leg_settles)
  have s2: "leg_settled exchange (ledger ?st2) (pos_tp_order_id p) (pos_profit_target p)"
    by (rule sync_leg_settles)
  have "leg_settled exchange (ledger ?fin) (pos_sl_order_id p) (pos_stop_loss p)"
    using s1 a2 a3 leg_settled_mono by (metis append.assoc)
  moreover have "leg_settled exchange (ledger ?fin) (pos_tp_order_id p) (pos_profit_target p)"
    using s2 a3 leg_settled_mono by metis
  ultimately have "position_settled exchange (ledger ?fin) p"
    by (simp add: position_settled_def)
  then show ?case
    using Cons.IH [of "Suc i" ?st2] step by simp
qed

lemma sync_leg_added:
  "\<exists>added. ledger (sync_leg exchange now None position leg lo lp st) = ledger st @ added
     \<and> length added \<le> 1
     \<and> set (map po_order_id added) \<inter> set (map po_order_id (ledger st)) = {}"
  using sync_leg_cases [of exchange now position leg lo lp st]
  by (auto dest!: insert_price_order_Inr)

lemma sync_leg_distinct:
  assumes "distinct (map po_order_id (ledger st))"
  shows "distinct (map po_order_id (ledger (sync_leg exchange now None position leg lo lp st)))"
proof -
  obtain added where a: "ledger (sync_leg exchange now None position leg lo lp st) = ledger st @ added"
    "length added \<le> 1" "set (map po_order_id added) \<inter> set (map po_order_id (ledger st)) = {}"
    using sync_leg_added by blast
  from a(2) have "distinct (map po_order_id added)"
    by (cases added) auto
  with a assms show ?thesis by auto
qed

lemma sync_positions_added:
  "\<exists>added. ledger (sync_positions exchange clock i ps st) = ledger st @ added
     \<and> set (map po_order_id added) \<inter> set (map po_order_id (ledger st)) = {}"
proof (induction ps arbitrary: i st)
  case Nil
  then show ?case by simp
next
  case (Cons p ps)
  let ?st1 = "sync_leg exchange (clock i) None p StopLoss (pos_sl_order_id p) (pos_stop_loss p) st"
  let ?st2 = "sync_leg exchange (clock i) None p TakeProfit (pos_tp_order_id p) (pos_profit_target p) ?st1"
  obtain a1 where a1: "ledger ?st1 = ledger st @ a1"
    "set (map po_order_id a1) \<inter> set (map po_order_id (ledger st)) = {}"
    using sync_leg_added by blast
  obtain a2 where a2: "ledger ?st2 = ledger ?st1 @ a2"
    "set (map po_order_id a2) \<inter> set (map po_order_id (ledger ?st1)) = {}"
    using sync_leg_added by blast
  obtain a3 where a3: "ledger (sync_positions exchange clock (Suc i) ps ?st2) = ledger ?st2 @ a3"
    "set (map po_order_id a3) \<inter> set (map po_order_id (ledger ?st2)) = {}"
    using Cons.IH by blast
  have "ledger (sync_positions exchange clock i (p # ps) st) = ledger st @ (a1 @ a2 @ a3)"
    using a1(1) a2(1) a3(1) by (simp add: sync_positions_step)
  moreover have "set (map po_order_id (a1 @ a2 @ a3)) \<inter> set (map po_order_id (ledger st)) = {}"
    using a1 a2 a3 by auto
  ultimately show ?case by blast
qed

lemma sync_positions_distinct:
  "distinct (map po_order_id (ledger st)) \<Longrightarrow>
   distinct (map po_order_id (ledger (sync_positions exchange clock i ps st)))"
proof (induction ps arbitrary: i st)
  case Nil
  then show ?case by simp
next
  case (Cons p ps)
  then show ?case
    by (simp add: sync_positions_step sync_leg_distinct)
qed

text \<open>
  C7. Reconciliation is idempotent. For an order id already in the ledger a run inserts
  nothing (the rows carrying that id after the run are the rows carrying it before), so
  the uniqueness of \<open>order_id\<close> is kept; and a second run, against the same positions
  and the same venue answers, leaves the ledger as the first run left it, whatever the
  clock reads.
\<close>

theorem sync_idempotent:
  "(orderId \<in> set (map po_order_id rows) \<longrightarrow>
      filter (\<lambda>r. po_order_id r = orderId) (ledger (syncPriceOrders exchange clock positions rows))
        = filter (\<lambda>r. po_order_id r = orderId) rows)
   \<and> (distinct (map po_order_id rows) \<longrightarrow>
        distinct (map po_order_id (ledger (syncPriceOrders exchange clock positions rows))))
   \<and> ledger (syncPriceOrders exchange clock2 positions
              (ledger (syncPriceOrders exchange clock positions rows)))
        = ledger (syncPriceOrders exchange clock positions rows)"
proof (intro conjI impI)
  let ?ps = "map select_position_columns positions"
  let ?st = "\<lparr>ledger = rows, syncCount = 0, skipCount = 0\<rparr>"
  assume present: "orderId \<in> set (map po_order_id rows)"
  obtain added where a: "ledger (sync_positions exchange clock 0 ?ps ?st) = rows @ added"
    "set (map po_order_id added) \<inter> set (map po_order_id rows) = {}"
    using sync_positions_added [of exchange clock 0 ?ps ?st] by auto
  from a(2) present have "filter (\<lambda>r. po_order_id r = orderId) added = []"
    by (auto simp: filter_empty_conv)
  with a(1) show "filter (\<lambda>r. po_order_id r = orderId) (ledger (syncPriceOrders exchange clock positions rows))
        = filter (\<lambda>r. po_order_id r = orderId) rows"
    by (simp add: syncPriceOrders_def)
next
  assume "distinct (map po_order_id rows)"
  then show "distinct (map po_order_id (ledger (syncPriceOrders exchange clock positions rows)))"
    unfolding syncPriceOrders_def
    using sync_positions_distinct
      [of "\<lparr>ledger = rows, syncCount = 0, skipCount = 0\<rparr>" exchange clock 0] by simp
next
  show "ledger (syncPriceOrders exchange clock2 positions
              (ledger (syncPriceOrders exchange clock positions rows)))
        = ledger (syncPriceOrders exchange clock positions rows)"
    unfolding syncPriceOrders_def
    using sync_positions_settled_id
       [of exchange "\<lparr>ledger = ledger (sync_positions exchange clock 0 (map select_position_columns positions)
          \<lparr>ledger = rows, syncCount = 0, skipCount = 0\<rparr>), syncCount = 0, skipCount = 0\<rparr>"
          "map select_position_columns positions" clock2 0]
       sync_positions_settles [of exchange clock 0 "map select_position_columns positions"
          "\<lparr>ledger = rows, syncCount = 0, skipCount = 0\<rparr>"]
    by simp
qed


theorem sync_idempotent_witness:
  "''SL001'' \<in> set (map po_order_id [legacy_stop_row])
   \<and> distinct (map po_order_id [legacy_stop_row])
   \<and> ledger (syncPriceOrders sample_exchange (\<lambda>i. 7) [sample_position] [legacy_stop_row])
       = [legacy_stop_row,
          \<lparr>po_id = 2, po_order_id = ''TP001'', po_position_order_id = None, po_symbol = ''BNB'',
           po_side = Long, po_type = TakeProfit, po_trigger_price = 998, po_order_price = 0,
           po_quantity = 1250, po_status = Active, po_created_at = 7, po_updated_at = None,
           po_triggered_at = None\<rparr>]
   \<and> ledger (syncPriceOrders sample_exchange (\<lambda>i. 9) [sample_position]
        (ledger (syncPriceOrders sample_exchange (\<lambda>i. 7) [sample_position] [legacy_stop_row])))
       = ledger (syncPriceOrders sample_exchange (\<lambda>i. 7) [sample_position] [legacy_stop_row])"
  using sync_idempotent [of "''SL001''" "[legacy_stop_row]" sample_exchange "\<lambda>i. 7" "[sample_position]" "\<lambda>i. 9"]
  by (simp add: syncPriceOrders_def sync_positions_step sync_leg_def select_position_columns_def
      sample_position_def sample_exchange_def legacy_stop_row_def select_id_by_order_id_def
      insert_price_order_def next_id_def ledger_status_def truthy_text_def
      selected_position_order_id_def)

section \<open>Properties of the protective pair\<close>

lemma cancel_active_no_active:
  "filter (\<lambda>r. po_symbol r = symbol \<and> po_status r = Active) rows = [] \<Longrightarrow>
   cancel_active rows symbol now = rows"
  by (induction rows) (auto simp: cancel_active_def split: if_splits)

lemma cancel_active_append:
  "cancel_active (xs @ ys) symbol now = cancel_active xs symbol now @ cancel_active ys symbol now"
  by (simp add: cancel_active_def)

lemma cancel_active_superseded:
  "list_all (superseded_leg symbol pid) olds \<Longrightarrow> cancel_active olds symbol now = olds"
  by (induction olds) (auto simp: cancel_active_def superseded_leg_def)

lemma cancel_active_leg:
  "active_leg symbol pid leg r \<Longrightarrow>
   cancel_active [r] symbol now = [r\<lparr>po_status := Cancelled, po_updated_at := Some now\<rparr>]
   \<and> superseded_leg symbol pid (r\<lparr>po_status := Cancelled, po_updated_at := Some now\<rparr>)"
  by (simp add: cancel_active_def active_leg_def superseded_leg_def)

lemma recover_from_pair:
  assumes "filter (\<lambda>r. po_symbol r = symbol \<and> po_status r = Active) rows0 = []"
      and "list_all (superseded_leg symbol pid) olds"
      and "active_leg symbol pid StopLoss sl"
      and "pid \<noteq> []"
  shows "recover_position_order_id (rows0 @ olds @ [sl, tp]) symbol = Some pid"
proof -
  have r0: "filter (\<lambda>r. po_symbol r = symbol \<and> po_status r = Active \<and> po_position_order_id r \<noteq> None) rows0 = []"
    using assms(1) by (auto simp: filter_empty_conv)
  have o: "filter (\<lambda>r. po_symbol r = symbol \<and> po_status r = Active \<and> po_position_order_id r \<noteq> None) olds = []"
    using assms(2) by (auto simp: filter_empty_conv list_all_iff superseded_leg_def)
  show ?thesis
    using r0 o assms(3,4)
    by (simp add: recover_position_order_id_def active_leg_def truthy_text_def)
qed

lemma insert_fresh:
  "orderId \<notin> set (map po_order_id rows) \<Longrightarrow>
   \<exists>r. insert_price_order rows orderId symbol side leg price qty Active now poid = Inr (rows @ [r])
     \<and> po_order_id r = orderId \<and> po_symbol r = symbol \<and> po_position_order_id r = poid
     \<and> po_status r = Active \<and> po_type r = leg"
  by (simp add: insert_price_order_def)

lemma cancel_active_order_ids:
  "map po_order_id (cancel_active rows symbol now) = map po_order_id rows"
  by (simp add: cancel_active_def comp_def)

lemma replace_step:
  assumes none0: "filter (\<lambda>r. po_symbol r = symbol \<and> po_status r = Active) rows0 = []"
      and olds: "list_all (superseded_leg symbol pid) olds"
      and sl: "active_leg symbol pid StopLoss sl"
      and tp: "active_leg symbol pid TakeProfit tp"
      and pid: "pid \<noteq> []"
      and call: "complete_call call"
      and fresh: "set (call_order_ids call) \<inter> set (map po_order_id (rows0 @ olds @ [sl, tp])) = {}"
      and dist: "distinct (call_order_ids call)"
  shows "\<exists>sl' tp' newsl newtp.
           replaceProtectivePair (rows0 @ olds @ [sl, tp]) symbol call
             = (rows0 @ (olds @ [sl', tp']) @ [newsl, newtp], None)
           \<and> superseded_leg symbol pid sl' \<and> superseded_leg symbol pid tp'
           \<and> active_leg symbol pid StopLoss newsl \<and> active_leg symbol pid TakeProfit newtp
           \<and> set (map po_order_id (rows0 @ (olds @ [sl', tp']) @ [newsl, newtp]))
               = set (map po_order_id (rows0 @ olds @ [sl, tp])) \<union> set (call_order_ids call)"
proof -
  let ?rows = "rows0 @ olds @ [sl, tp]"
  let ?now = "calledAt call"
  let ?sl' = "sl\<lparr>po_status := Cancelled, po_updated_at := Some ?now\<rparr>"
  let ?tp' = "tp\<lparr>po_status := Cancelled, po_updated_at := Some ?now\<rparr>"
  let ?rows1 = "rows0 @ olds @ [?sl', ?tp']"
  from call obtain slid tpid sprice tprice where c:
    "stopLossOrderId call = Some slid" "takeProfitOrderId call = Some tpid"
    "stopLoss call = Some sprice" "takeProfit call = Some tprice"
    "slid \<noteq> []" "tpid \<noteq> []" "sprice \<noteq> 0" "tprice \<noteq> 0"
    by (auto simp: complete_call_def truthy_text_def truthy_num_def split: option.splits)
  have ids: "call_order_ids call = [slid, tpid]"
    using c by (simp add: call_order_ids_def)
  have rec: "recover_position_order_id ?rows symbol = Some pid"
    using recover_from_pair [OF none0 olds sl pid] .
  have canc: "cancel_active ?rows symbol ?now = ?rows1"
    using cancel_active_no_active [OF none0] cancel_active_superseded [OF olds]
      cancel_active_leg [OF sl] cancel_active_leg [OF tp]
    by (simp add: cancel_active_append) (simp add: cancel_active_def)
  have ids1: "map po_order_id ?rows1 = map po_order_id ?rows"
    by simp
  have f1: "slid \<notin> set (map po_order_id ?rows1)"
    using fresh ids unfolding ids1 by auto
  let ?side = "if 0 < positionSize call then Long else Short"
  obtain newsl where n1:
    "insert_price_order ?rows1 slid symbol ?side StopLoss sprice \<bar>positionSize call\<bar> Active ?now (Some pid)
       = Inr (?rows1 @ [newsl])"
    "po_order_id newsl = slid" "active_leg symbol pid StopLoss newsl"
    using insert_fresh [OF f1, of symbol ?side StopLoss sprice "\<bar>positionSize call\<bar>" ?now "Some pid"]
    by (auto simp: active_leg_def)
  have f2: "tpid \<notin> set (map po_order_id (?rows1 @ [newsl]))"
    using fresh ids dist n1(2) unfolding ids1 by auto
  obtain newtp where n2:
    "insert_price_order (?rows1 @ [newsl]) tpid symbol ?side TakeProfit tprice \<bar>positionSize call\<bar> Active ?now (Some pid)
       = Inr ((?rows1 @ [newsl]) @ [newtp])"
    "po_order_id newtp = tpid" "active_leg symbol pid TakeProfit newtp"
    using insert_fresh [OF f2, of symbol ?side TakeProfit tprice "\<bar>positionSize call\<bar>" ?now "Some pid"]
    by (auto simp: active_leg_def)
  have res: "replaceProtectivePair ?rows symbol call = (rows0 @ (olds @ [?sl', ?tp']) @ [newsl, newtp], None)"
    unfolding replaceProtectivePair_def Let_def rec canc
    using c n1(1) n2(1) by simp
  have s1: "superseded_leg symbol pid ?sl'" using cancel_active_leg [OF sl] by simp
  have s2: "superseded_leg symbol pid ?tp'" using cancel_active_leg [OF tp] by simp
  have idset: "set (map po_order_id (rows0 @ (olds @ [?sl', ?tp']) @ [newsl, newtp]))
               = set (map po_order_id ?rows) \<union> set (call_order_ids call)"
    using n1(2) n2(2) ids by auto
  show ?thesis
    using res s1 s2 n1(3) n2(3) idset by blast
qed

lemma replace_chain_shape:
  assumes none0: "filter (\<lambda>r. po_symbol r = symbol \<and> po_status r = Active) rows0 = []"
      and pid: "pid \<noteq> []"
  shows "list_all (superseded_leg symbol pid) olds \<Longrightarrow>
         active_leg symbol pid StopLoss sl \<Longrightarrow>
         active_leg symbol pid TakeProfit tp \<Longrightarrow>
         list_all complete_call calls \<Longrightarrow>
         distinct (concat (map call_order_ids calls)) \<Longrightarrow>
         set (concat (map call_order_ids calls)) \<inter> set (map po_order_id (rows0 @ olds @ [sl, tp])) = {} \<Longrightarrow>
         \<exists>olds' sl' tp'.
           replace_chain (rows0 @ olds @ [sl, tp]) symbol calls = rows0 @ olds' @ [sl', tp']
           \<and> list_all (superseded_leg symbol pid) olds'
           \<and> active_leg symbol pid StopLoss sl' \<and> active_leg symbol pid TakeProfit tp'
           \<and> length olds' = length olds + 2 * length calls"
proof (induction calls arbitrary: olds sl tp)
  case Nil
  then show ?case by auto
next
  case (Cons call calls)
  from Cons.prems(4) have cc: "complete_call call" and rest: "list_all complete_call calls"
    by simp_all
  from Cons.prems(5) have d1: "distinct (call_order_ids call)"
    and d2: "distinct (concat (map call_order_ids calls))"
    and d3: "set (call_order_ids call) \<inter> set (concat (map call_order_ids calls)) = {}"
    by auto
  from Cons.prems(6) have f1: "set (call_order_ids call) \<inter> set (map po_order_id (rows0 @ olds @ [sl, tp])) = {}"
    and f2: "set (concat (map call_order_ids calls)) \<inter> set (map po_order_id (rows0 @ olds @ [sl, tp])) = {}"
    by auto
  obtain sl' tp' newsl newtp where step:
    "replaceProtectivePair (rows0 @ olds @ [sl, tp]) symbol call
       = (rows0 @ (olds @ [sl', tp']) @ [newsl, newtp], None)"
    "superseded_leg symbol pid sl'" "superseded_leg symbol pid tp'"
    "active_leg symbol pid StopLoss newsl" "active_leg symbol pid TakeProfit newtp"
    "set (map po_order_id (rows0 @ (olds @ [sl', tp']) @ [newsl, newtp]))
       = set (map po_order_id (rows0 @ olds @ [sl, tp])) \<union> set (call_order_ids call)"
    using replace_step [OF none0 Cons.prems(1) Cons.prems(2) Cons.prems(3) pid cc f1 d1] by blast
  have olds': "list_all (superseded_leg symbol pid) (olds @ [sl', tp'])"
    using Cons.prems(1) step(2,3) by simp
  have f3: "set (concat (map call_order_ids calls))
              \<inter> set (map po_order_id (rows0 @ (olds @ [sl', tp']) @ [newsl, newtp])) = {}"
    unfolding step(6) using f2 d3 by auto
  obtain olds'' sl'' tp'' where fin:
    "replace_chain (rows0 @ (olds @ [sl', tp']) @ [newsl, newtp]) symbol calls = rows0 @ olds'' @ [sl'', tp'']"
    "list_all (superseded_leg symbol pid) olds''"
    "active_leg symbol pid StopLoss sl''" "active_leg symbol pid TakeProfit tp''"
    "length olds'' = length (olds @ [sl', tp']) + 2 * length calls"
    using Cons.IH [OF olds' step(4) step(5) rest d2 f3] by blast
  have "replace_chain (rows0 @ olds @ [sl, tp]) symbol (call # calls) = rows0 @ olds'' @ [sl'', tp'']"
    using step(1) fin(1) by simp
  moreover have "length olds'' = length olds + 2 * length (call # calls)"
    using fin(5) by simp
  ultimately show ?case
    using fin(2,3,4) by blast
qed

lemma create_shape:
  assumes "sl \<noteq> []" "tp \<noteq> []" "sl \<noteq> tp"
      and "sl \<notin> set (map po_order_id rows0)" "tp \<notin> set (map po_order_id rows0)"
  shows "\<exists>slrow tprow.
           createProtectivePair rows0 (Some pid) symbol side (Some sl) (Some tp) stopPrice targetPrice
             quantity now = (rows0 @ [slrow, tprow], [])
           \<and> active_leg symbol pid StopLoss slrow \<and> active_leg symbol pid TakeProfit tprow
           \<and> po_order_id slrow = sl \<and> po_order_id tprow = tp"
  using assms
  by (simp add: createProtectivePair_def insert_price_order_def active_leg_def)

lemma active_legs_shape:
  assumes none0: "filter (\<lambda>r. po_symbol r = symbol \<and> po_status r = Active) rows0 = []"
      and olds: "list_all (superseded_leg symbol pid) olds"
      and sl: "active_leg symbol pid StopLoss sl"
      and tp: "active_leg symbol pid TakeProfit tp"
  shows "active_legs (rows0 @ olds @ [sl, tp]) symbol StopLoss = [sl]"
    and "active_legs (rows0 @ olds @ [sl, tp]) symbol TakeProfit = [tp]"
    and "filter (\<lambda>r. po_status r = Active) (olds @ [sl, tp]) = [sl, tp]"
proof -
  have r0: "filter (\<lambda>r. po_symbol r = symbol \<and> po_status r = Active \<and> po_type r = leg) rows0 = []" for leg
    using none0 by (auto simp: filter_empty_conv)
  have o: "filter (\<lambda>r. po_symbol r = symbol \<and> po_status r = Active \<and> po_type r = leg) olds = []" for leg
    using olds by (auto simp: filter_empty_conv list_all_iff superseded_leg_def)
  have o2: "filter (\<lambda>r. po_status r = Active) olds = []"
    using olds by (auto simp: filter_empty_conv list_all_iff superseded_leg_def)
  show "active_legs (rows0 @ olds @ [sl, tp]) symbol StopLoss = [sl]"
    using r0 o sl tp by (simp add: active_legs_def active_leg_def)
  show "active_legs (rows0 @ olds @ [sl, tp]) symbol TakeProfit = [tp]"
    using r0 o sl tp by (simp add: active_legs_def active_leg_def)
  show "filter (\<lambda>r. po_status r = Active) (olds @ [sl, tp]) = [sl, tp]"
    using o2 sl tp by (simp add: active_leg_def)
qed

text \<open>
  The path on which every replacement moves both legs. Start from a ledger with no active
  row for the symbol; let the entry order have a non-empty id and let the venue return
  non-empty leg ids that are new to the ledger and pairwise different. Then after the
  creation and any number of serialized replacements the ledger holds exactly one active
  stop-loss row and exactly one active take-profit row for the symbol; the rows that were
  there before are as they were; every inserted row carries the entry order id; and every
  inserted row other than the two active ones is cancelled with \<open>updated_at\<close> stamped.
\<close>

theorem replacement_chain_keeps_pair:
  assumes none0: "filter (\<lambda>r. po_symbol r = symbol \<and> po_status r = Active) rows0 = []"
      and pid: "pid \<noteq> []"
      and legs: "sl \<noteq> []" "tp \<noteq> []"
      and calls: "list_all complete_call calls"
      and dist: "distinct (sl # tp # concat (map call_order_ids calls))"
      and fresh: "set (sl # tp # concat (map call_order_ids calls)) \<inter> set (map po_order_id rows0) = {}"
  shows "let final = replace_chain
                       (fst (createProtectivePair rows0 (Some pid) symbol side (Some sl) (Some tp)
                               stopPrice targetPrice quantity now))
                       symbol calls;
             inserted = drop (length rows0) final
         in length (active_legs final symbol StopLoss) = 1
            \<and> length (active_legs final symbol TakeProfit) = 1
            \<and> take (length rows0) final = rows0
            \<and> length inserted = 2 + 2 * length calls
            \<and> list_all (\<lambda>r. po_position_order_id r = Some pid) inserted
            \<and> list_all (\<lambda>r. po_status r = Active \<or> po_status r = Cancelled \<and> po_updated_at r \<noteq> None)
                 inserted
            \<and> length (filter (\<lambda>r. po_status r = Active) inserted) = 2"
proof -
  obtain slrow tprow where cr:
    "createProtectivePair rows0 (Some pid) symbol side (Some sl) (Some tp) stopPrice targetPrice
       quantity now = (rows0 @ [slrow, tprow], [])"
    "active_leg symbol pid StopLoss slrow" "active_leg symbol pid TakeProfit tprow"
    "po_order_id slrow = sl" "po_order_id tprow = tp"
    using create_shape [of sl tp rows0 pid symbol side stopPrice targetPrice quantity now]
      legs dist fresh by auto
  have d: "distinct (concat (map call_order_ids calls))"
    using dist by simp
  have f: "set (concat (map call_order_ids calls)) \<inter> set (map po_order_id (rows0 @ [] @ [slrow, tprow])) = {}"
    using dist fresh cr(4,5) by auto
  obtain olds' sl' tp' where fin:
    "replace_chain (rows0 @ [] @ [slrow, tprow]) symbol calls = rows0 @ olds' @ [sl', tp']"
    "list_all (superseded_leg symbol pid) olds'"
    "active_leg symbol pid StopLoss sl'" "active_leg symbol pid TakeProfit tp'"
    "length olds' = length ([] :: price_order list) + 2 * length calls"
    using replace_chain_shape [OF none0 pid _ cr(2) cr(3) calls d f] by auto
  have final: "replace_chain
                 (fst (createProtectivePair rows0 (Some pid) symbol side (Some sl) (Some tp)
                         stopPrice targetPrice quantity now)) symbol calls
               = rows0 @ olds' @ [sl', tp']"
    using cr(1) fin(1) by simp
  have ins: "drop (length rows0) (rows0 @ olds' @ [sl', tp']) = olds' @ [sl', tp']"
    by simp
  have p1: "list_all (\<lambda>r. po_position_order_id r = Some pid) (olds' @ [sl', tp'])"
    using fin(2,3,4) by (auto simp: list_all_iff superseded_leg_def active_leg_def)
  have p2: "list_all (\<lambda>r. po_status r = Active \<or> po_status r = Cancelled \<and> po_updated_at r \<noteq> None)
              (olds' @ [sl', tp'])"
    using fin(2,3,4) by (auto simp: list_all_iff superseded_leg_def active_leg_def)
  show ?thesis
    unfolding Let_def final ins
    using active_legs_shape [OF none0 fin(2) fin(3) fin(4)] fin(5) p1 p2
    by simp
qed

text \<open>
  A run on a ledger that already holds a row of another symbol: creation for LTC, then one
  replacement moving both legs.
\<close>

lemma ltc_chain:
  "replace_chain
     (fst (createProtectivePair [legacy_stop_row] (Some ''12345'') ''LTC'' Long (Some ''SL002'')
             (Some ''TP002'') 107 112 132 10))
     ''LTC'' [move_both] =
    [legacy_stop_row,
     \<lparr>po_id = 2, po_order_id = ''SL002'', po_position_order_id = Some ''12345'', po_symbol = ''LTC'',
      po_side = Long, po_type = StopLoss, po_trigger_price = 107, po_order_price = 0,
      po_quantity = 132, po_status = Cancelled, po_created_at = 10, po_updated_at = Some 30,
      po_triggered_at = None\<rparr>,
     \<lparr>po_id = 3, po_order_id = ''TP002'', po_position_order_id = Some ''12345'', po_symbol = ''LTC'',
      po_side = Long, po_type = TakeProfit, po_trigger_price = 112, po_order_price = 0,
      po_quantity = 132, po_status = Cancelled, po_created_at = 10, po_updated_at = Some 30,
      po_triggered_at = None\<rparr>,
     \<lparr>po_id = 4, po_order_id = ''SL003'', po_position_order_id = Some ''12345'', po_symbol = ''LTC'',
      po_side = Long, po_type = StopLoss, po_trigger_price = 992, po_order_price = 0,
      po_quantity = 1250, po_status = Active, po_created_at = 30, po_updated_at = None,
      po_triggered_at = None\<rparr>,
     \<lparr>po_id = 5, po_order_id = ''TP003'', po_position_order_id = Some ''12345'', po_symbol = ''LTC'',
      po_side = Long, po_type = TakeProfit, po_trigger_price = 1001, po_order_price = 0,
      po_quantity = 1250, po_status = Active, po_created_at = 30, po_updated_at = None,
      po_triggered_at = None\<rparr>]"
proof -
  have c: "fst (createProtectivePair [legacy_stop_row] (Some ''12345'') ''LTC'' Long (Some ''SL002'')
             (Some ''TP002'') 107 112 132 10) =
    [legacy_stop_row,
     \<lparr>po_id = 2, po_order_id = ''SL002'', po_position_order_id = Some ''12345'', po_symbol = ''LTC'',
      po_side = Long, po_type = StopLoss, po_trigger_price = 107, po_order_price = 0,
      po_quantity = 132, po_status = Active, po_created_at = 10, po_updated_at = None,
      po_triggered_at = None\<rparr>,
     \<lparr>po_id = 3, po_order_id = ''TP002'', po_position_order_id = Some ''12345'', po_symbol = ''LTC'',
      po_side = Long, po_type = TakeProfit, po_trigger_price = 112, po_order_price = 0,
      po_quantity = 132, po_status = Active, po_created_at = 10, po_updated_at = None,
      po_triggered_at = None\<rparr>]"
    by (simp add: createProtectivePair_def insert_price_order_def next_id_def Let_def
        legacy_stop_row_def)
  show ?thesis
    unfolding c
    by (simp add: replaceProtectivePair_def insert_price_order_def move_both_def
        recover_position_order_id_def cancel_active_def truthy_text_def next_id_def Let_def
        legacy_stop_row_def)
qed

theorem replacement_chain_keeps_pair_witness:
  "length (active_legs
      (replace_chain
         (fst (createProtectivePair [legacy_stop_row] (Some ''12345'') ''LTC'' Long (Some ''SL002'')
                 (Some ''TP002'') 107 112 132 10))
         ''LTC'' [move_both])
      ''LTC'' StopLoss) = 1
   \<and> length (active_legs
      (replace_chain
         (fst (createProtectivePair [legacy_stop_row] (Some ''12345'') ''LTC'' Long (Some ''SL002'')
                 (Some ''TP002'') 107 112 132 10))
         ''LTC'' [move_both])
      ''LTC'' TakeProfit) = 1
   \<and> map po_order_id
       (replace_chain
         (fst (createProtectivePair [legacy_stop_row] (Some ''12345'') ''LTC'' Long (Some ''SL002'')
                 (Some ''TP002'') 107 112 132 10))
         ''LTC'' [move_both]) = [''SL001'', ''SL002'', ''TP002'', ''SL003'', ''TP003'']
   \<and> map po_status
       (replace_chain
         (fst (createProtectivePair [legacy_stop_row] (Some ''12345'') ''LTC'' Long (Some ''SL002'')
                 (Some ''TP002'') 107 112 132 10))
         ''LTC'' [move_both]) = [Active, Cancelled, Cancelled, Active, Active]"
proof -
  have h1: "filter (\<lambda>r. po_symbol r = ''LTC'' \<and> po_status r = Active) [legacy_stop_row] = []"
    by (simp add: legacy_stop_row_def)
  have h2: "''12345'' \<noteq> []" "''SL002'' \<noteq> []" "''TP002'' \<noteq> []" by simp_all
  have h3: "list_all complete_call [move_both]"
    by (simp add: complete_call_def move_both_def truthy_text_def truthy_num_def)
  have ids: "concat (map call_order_ids [move_both]) = [''SL003'', ''TP003'']"
    by (simp add: call_order_ids_def move_both_def)
  have h4: "distinct (''SL002'' # ''TP002'' # concat (map call_order_ids [move_both]))"
    unfolding ids by simp
  have h5: "set (''SL002'' # ''TP002'' # concat (map call_order_ids [move_both]))
              \<inter> set (map po_order_id [legacy_stop_row]) = {}"
    unfolding ids by (simp add: legacy_stop_row_def)
  note t = replacement_chain_keeps_pair [OF h1 h2(1) h2(2) h2(3) h3 h4 h5, of Long 107 112 132 10]
  have "length (active_legs
      (replace_chain
         (fst (createProtectivePair [legacy_stop_row] (Some ''12345'') ''LTC'' Long (Some ''SL002'')
                 (Some ''TP002'') 107 112 132 10))
         ''LTC'' [move_both])
      ''LTC'' StopLoss) = 1
    \<and> length (active_legs
      (replace_chain
         (fst (createProtectivePair [legacy_stop_row] (Some ''12345'') ''LTC'' Long (Some ''SL002'')
                 (Some ''TP002'') 107 112 132 10))
         ''LTC'' [move_both])
      ''LTC'' TakeProfit) = 1"
    using t unfolding Let_def by blast
  moreover have "map po_order_id
       (replace_chain
         (fst (createProtectivePair [legacy_stop_row] (Some ''12345'') ''LTC'' Long (Some ''SL002'')
                 (Some ''TP002'') 107 112 132 10))
         ''LTC'' [move_both]) = [''SL001'', ''SL002'', ''TP002'', ''SL003'', ''TP003'']"
    unfolding ltc_chain by (simp add: legacy_stop_row_def)
  moreover have "map po_status
       (replace_chain
         (fst (createProtectivePair [legacy_stop_row] (Some ''12345'') ''LTC'' Long (Some ''SL002'')
                 (Some ''TP002'') 107 112 132 10))
         ''LTC'' [move_both]) = [Active, Cancelled, Cancelled, Active, Active]"
    unfolding ltc_chain by (simp add: legacy_stop_row_def)
  ultimately show ?thesis by blast
qed

subsection \<open>A replacement that moves the stop only\<close>

text \<open>
  C1. The claim asks for exactly one active stop-loss row and exactly one active
  take-profit row after any chain of replacements, and the documentation of the change
  draws the move of a stop with the old stop-loss cancelled, the new one active and the
  take-profit still active. Step 1 of the replacement cancels every active row of the
  symbol and step 2 inserts only the legs whose id and price are given: after a creation
  (entry order 12345, legs SL001 and TP001) and one replacement that moves the stop alone
  (venue placement succeeding, no error), SL001 and TP001 are both cancelled, SL002 is
  active, and no active take-profit row is left.
\<close>

theorem move_stop_only_cancels_take_profit:
  "map (\<lambda>r. (po_order_id r, po_type r, po_status r, po_position_order_id r))
     (replace_chain
        (fst (createProtectivePair [] (Some ''12345'') ''BNB'' Long (Some ''SL001'') (Some ''TP001'')
                988 998 1250 10))
        ''BNB'' [move_stop_only])
     = [(''SL001'', StopLoss, Cancelled, Some ''12345''),
        (''TP001'', TakeProfit, Cancelled, Some ''12345''),
        (''SL002'', StopLoss, Active, Some ''12345'')]
   \<and> snd (replaceProtectivePair
          (fst (createProtectivePair [] (Some ''12345'') ''BNB'' Long (Some ''SL001'') (Some ''TP001'')
                  988 998 1250 10))
          ''BNB'' move_stop_only) = None
   \<and> length (active_legs
        (replace_chain
           (fst (createProtectivePair [] (Some ''12345'') ''BNB'' Long (Some ''SL001'') (Some ''TP001'')
                   988 998 1250 10))
           ''BNB'' [move_stop_only])
        ''BNB'' TakeProfit) = 0
   \<and> length (active_legs
        (replace_chain
           (fst (createProtectivePair [] (Some ''12345'') ''BNB'' Long (Some ''SL001'') (Some ''TP001'')
                   988 998 1250 10))
           ''BNB'' [move_stop_only])
        ''BNB'' StopLoss) = 1"
  by code_simp

subsection \<open>A stale active row of the symbol\<close>

text \<open>
  Step 0 takes the position order id of the first active row of the symbol, whatever
  position it belongs to. With an active row of an earlier position (entry order 99999)
  still in the ledger, the legs inserted by a replacement for the position of entry order
  12345 carry 99999.
\<close>

lemma stale_active_row_takes_over_key:
  "map (\<lambda>r. (po_order_id r, po_status r, po_position_order_id r))
     (replace_chain
        (fst (createProtectivePair [stale_stop_row] (Some ''12345'') ''BNB'' Long (Some ''SL001'')
                (Some ''TP001'') 988 998 1250 10))
        ''BNB'' [move_both])
     = [(''SL000'', Cancelled, Some ''99999''),
        (''SL001'', Cancelled, Some ''12345''),
        (''TP001'', Cancelled, Some ''12345''),
        (''SL003'', Active, Some ''99999''),
        (''TP003'', Active, Some ''99999'')]"
  by code_simp

section \<open>Properties of the duplicate repair\<close>

lemma foldl_delete_by_id:
  "foldl (delete_by_id ident) rows ids = filter (\<lambda>r. ident r \<notin> set ids) rows"
proof (induction ids arbitrary: rows)
  case Nil
  then show ?case by simp
next
  case (Cons i ids)
  have "filter (\<lambda>r. ident r \<notin> set ids) (filter (\<lambda>r. ident r \<noteq> i) rows)
          = filter (\<lambda>r. ident r \<notin> set (i # ids)) rows"
    by (induction rows) auto
  with Cons show ?case by (simp add: delete_by_id_def)
qed

lemma distinct_rows: "distinct (map ident rows) \<Longrightarrow> distinct rows"
  by (simp add: distinct_map)

lemma kept_row_cases:
  "kept_row stamp matches rows = [] \<and> filter matches rows = []
   \<or> (\<exists>keep. kept_row stamp matches rows = [keep] \<and> keep \<in> set rows \<and> matches keep
        \<and> (\<forall>r\<in>set rows. matches r \<longrightarrow> stamp keep \<le> stamp r))"
proof (cases "sort_key stamp (filter matches rows)")
  case Nil
  then have "filter matches rows = []"
    by (metis length_0_conv length_sort)
  with Nil show ?thesis by (simp add: kept_row_def)
next
  case (Cons keep others)
  have mem: "set (keep # others) = set (filter matches rows)"
    using Cons by (metis set_sort)
  have "sorted (map stamp (keep # others))"
    using Cons by (metis sorted_sort_key)
  then have "\<forall>r\<in>set (keep # others). stamp keep \<le> stamp r"
    by auto
  with mem Cons show ?thesis
    by (auto simp: kept_row_def)
qed

lemma repair_group_rows:
  assumes d: "distinct (map ident rows)"
  shows "fst (repair_group ident stamp matches (rows, n))
           = filter (\<lambda>r. matches r \<longrightarrow> [r] = kept_row stamp matches rows) rows"
proof (cases "sort_key stamp (filter matches rows)")
  case Nil
  then have "filter matches rows = []"
    by (metis length_0_conv length_sort)
  then have "\<forall>r\<in>set rows. \<not> matches r"
    by (simp add: filter_empty_conv)
  then have "filter (\<lambda>r. matches r \<longrightarrow> [r] = kept_row stamp matches rows) rows = rows"
    by (simp add: filter_id_conv)
  with Nil show ?thesis by (simp add: repair_group_def)
next
  case (Cons keep others)
  have mem: "set (keep # others) = set (filter matches rows)"
    using Cons by (metis set_sort)
  have "distinct (filter matches rows)"
    using d by (simp add: distinct_rows)
  then have dk: "distinct (keep # others)"
    using Cons by (metis distinct_sort)
  have kr: "kept_row stamp matches rows = [keep]"
    using Cons by (simp add: kept_row_def)
  have key: "ident r \<notin> set (map ident others) \<longleftrightarrow> (matches r \<longrightarrow> r = keep)" if r: "r \<in> set rows" for r
  proof
    assume notin: "ident r \<notin> set (map ident others)"
    show "matches r \<longrightarrow> r = keep"
    proof
      assume "matches r"
      with r mem have "r \<in> set (keep # others)" by simp
      with notin show "r = keep" by auto
    qed
  next
    assume imp: "matches r \<longrightarrow> r = keep"
    show "ident r \<notin> set (map ident others)"
    proof
      assume "ident r \<in> set (map ident others)"
      then obtain x where x: "x \<in> set others" "ident x = ident r" by auto
      from x(1) mem have xr: "x \<in> set rows" "matches x" by auto
      from d r xr(1) x(2) have "x = r"
        by (metis distinct_map inj_onD)
      with imp xr(2) x(1) dk show False by auto
    qed
  qed
  have rows': "filter (\<lambda>r. ident r \<notin> set (map ident others)) rows
                 = filter (\<lambda>r. matches r \<longrightarrow> [r] = kept_row stamp matches rows) rows"
    using key unfolding kr by (intro filter_cong) auto
  show ?thesis
  proof (cases others)
    case Nil
    then have "\<forall>r\<in>set rows. matches r \<longrightarrow> r = keep"
      using mem by auto
    then have "filter (\<lambda>r. matches r \<longrightarrow> [r] = kept_row stamp matches rows) rows = rows"
      unfolding kr by (auto simp: filter_id_conv)
    with Cons Nil show ?thesis by (simp add: repair_group_def)
  next
    case (Cons o1 os)
    then show ?thesis
      using \<open>sort_key stamp (filter matches rows) = keep # others\<close> rows'
      by (simp add: repair_group_def foldl_delete_by_id Let_def del: set_map)
  qed
qed

lemma repair_group_count:
  "snd (repair_group ident stamp matches (rows, n)) = n + (length (filter matches rows) - 1)"
proof (cases "sort_key stamp (filter matches rows)")
  case Nil
  then have "length (filter matches rows) = 0"
    by (metis length_0_conv length_sort)
  with Nil show ?thesis by (simp add: repair_group_def)
next
  case (Cons keep others)
  have "length (filter matches rows) = Suc (length others)"
    using Cons by (metis length_Cons length_sort)
  with Cons show ?thesis
    by (cases others) (simp_all add: repair_group_def Let_def)
qed

lemma filter_eq_singleton:
  "distinct rows \<Longrightarrow> x \<in> set rows \<Longrightarrow> filter (\<lambda>r. r = x) rows = [x]"
  by (induction rows) (auto simp: filter_empty_conv)

lemma kept_row_singleton: "matches r \<Longrightarrow> kept_row stamp matches [r] = [r]"
  by (simp add: kept_row_def)

lemma repair_fold_rows:
  "distinct (map ident rows) \<Longrightarrow>
   fst (foldl (\<lambda>st k. repair_group ident stamp (\<lambda>r. key r = k) st) (rows, n) keys)
     = filter (\<lambda>r. key r \<in> set keys \<longrightarrow> [r] = kept_row stamp (\<lambda>x. key x = key r) rows) rows"
proof (induction keys arbitrary: rows n)
  case Nil
  then show ?case by simp
next
  case (Cons k keys)
  let ?keeps = "\<lambda>rs r. [r] = kept_row stamp (\<lambda>x. key x = key r) rs"
  let ?rows1 = "filter (\<lambda>r. key r = k \<longrightarrow> [r] = kept_row stamp (\<lambda>x. key x = k) rows) rows"
  let ?n1 = "snd (repair_group ident stamp (\<lambda>r. key r = k) (rows, n))"
  have dr: "distinct rows" using Cons.prems by (rule distinct_rows)
  have step: "repair_group ident stamp (\<lambda>r. key r = k) (rows, n) = (?rows1, ?n1)"
    using repair_group_rows [OF Cons.prems, of stamp "\<lambda>r. key r = k" n]
    by (metis prod.collapse)
  have d1: "distinct (map ident ?rows1)"
    using Cons.prems by (rule distinct_map_filter)
  have same: "?keeps ?rows1 r \<longleftrightarrow> ?keeps rows r" if r: "r \<in> set ?rows1" for r
  proof (cases "key r = k")
    case False
    have "filter (\<lambda>x. key x = key r) ?rows1 = filter (\<lambda>x. key x = key r) rows"
      using False by (auto intro: filter_cong)
    then show ?thesis by (simp add: kept_row_def)
  next
    case True
    from r True have keep: "[r] = kept_row stamp (\<lambda>x. key x = k) rows" and rin: "r \<in> set rows"
      by auto
    have pt: "((key x = k \<longrightarrow> [x] = kept_row stamp (\<lambda>x. key x = k) rows) \<and> key x = k) = (x = r)" for x
      using keep [symmetric] True by auto
    have "filter (\<lambda>x. key x = k) ?rows1 = filter (\<lambda>x. x = r) rows"
      by (simp add: pt)
    also have "\<dots> = [r]"
      using dr rin by (rule filter_eq_singleton)
    finally have "kept_row stamp (\<lambda>x. key x = k) ?rows1 = [r]"
      using True by (simp add: kept_row_def)
    with keep True show ?thesis by simp
  qed
  have "fst (foldl (\<lambda>st k. repair_group ident stamp (\<lambda>r. key r = k) st) (rows, n) (k # keys))
          = filter (\<lambda>r. key r \<in> set keys \<longrightarrow> ?keeps ?rows1 r) ?rows1"
    using Cons.IH [OF d1, of ?n1] step by simp
  also have "\<dots> = filter (\<lambda>r. key r \<in> set keys \<longrightarrow> ?keeps rows r) ?rows1"
    using same by (intro filter_cong) auto
  also have "\<dots> = filter (\<lambda>r. key r \<in> set (k # keys) \<longrightarrow> ?keeps rows r) rows"
    by (auto intro: filter_cong)
  finally show ?case .
qed

lemma repair_fold_group:
  assumes d: "distinct (map ident rows)" and k: "k \<in> set keys"
  shows "filter (\<lambda>r. key r = k)
           (fst (foldl (\<lambda>st k. repair_group ident stamp (\<lambda>r. key r = k) st) (rows, n) keys))
         = kept_row stamp (\<lambda>r. key r = k) rows"
proof -
  have dr: "distinct rows" using d by (rule distinct_rows)
  have eq: "filter (\<lambda>r. key r = k)
           (fst (foldl (\<lambda>st k. repair_group ident stamp (\<lambda>r. key r = k) st) (rows, n) keys))
         = filter (\<lambda>r. key r = k \<and> [r] = kept_row stamp (\<lambda>x. key x = k) rows) rows"
    unfolding repair_fold_rows [OF d] using k by (auto intro: filter_cong)
  from kept_row_cases [of stamp "\<lambda>r. key r = k" rows]
  show ?thesis
  proof
    assume "kept_row stamp (\<lambda>r. key r = k) rows = [] \<and> filter (\<lambda>r. key r = k) rows = []"
    then show ?thesis unfolding eq by (auto simp: filter_empty_conv)
  next
    assume "\<exists>keep. kept_row stamp (\<lambda>r. key r = k) rows = [keep] \<and> keep \<in> set rows \<and> key keep = k
        \<and> (\<forall>r\<in>set rows. key r = k \<longrightarrow> stamp keep \<le> stamp r)"
    then obtain keep where kp: "kept_row stamp (\<lambda>r. key r = k) rows = [keep]" "keep \<in> set rows"
      "key keep = k" by blast
    have "filter (\<lambda>r. key r = k \<and> [r] = kept_row stamp (\<lambda>x. key x = k) rows) rows
            = filter (\<lambda>r. r = keep) rows"
      using kp by (auto intro: filter_cong)
    then show ?thesis
      unfolding eq using filter_eq_singleton [OF dr kp(2)] kp(1) by simp
  qed
qed

lemma repair_fold_other:
  assumes d: "distinct (map ident rows)" and k: "k \<notin> set keys"
  shows "filter (\<lambda>r. key r = k)
           (fst (foldl (\<lambda>st k. repair_group ident stamp (\<lambda>r. key r = k) st) (rows, n) keys))
         = filter (\<lambda>r. key r = k) rows"
  unfolding repair_fold_rows [OF d] using k by (auto intro: filter_cong)

lemma set_duplicate_keys:
  "set (duplicate_keys key rows) = {k. 1 < length (filter (\<lambda>r. key r = k) rows)}"
proof -
  let ?cnt = "\<lambda>k. length (filter (\<lambda>r. key r = k) rows)"
  have "set (duplicate_keys key rows)
          = fst ` {p \<in> (\<lambda>k. (k, ?cnt k)) ` (key ` set rows). 1 < snd p}"
    by (simp add: duplicate_keys_def Let_def case_prod_beta image_image)
  also have "\<dots> = {k \<in> key ` set rows. 1 < ?cnt k}"
    by force
  also have "\<dots> = {k. 1 < ?cnt k}"
  proof -
    have "k \<in> key ` set rows" if "1 < ?cnt k" for k
    proof -
      from that have "filter (\<lambda>r. key r = k) rows \<noteq> []" by auto
      then show ?thesis by (auto simp: filter_empty_conv)
    qed
    then show ?thesis by blast
  qed
  finally show ?thesis .
qed

lemma set_duplicate_trade_order_ids:
  "set (duplicate_trade_order_ids ts)
     = {orderId. 1 < length (filter (\<lambda>t. tr_type t = ''close'' \<and> tr_order_id t = orderId) ts)}"
  by (simp add: duplicate_trade_order_ids_def set_duplicate_keys conj_commute)

lemma length_filter_map_filter:
  "length (filter (\<lambda>x. x = k) (List.map_filter f xs)) = length (filter (\<lambda>x. f x = Some k) xs)"
  by (induction xs) (auto simp: List.map_filter_simps split: option.splits)

lemma set_duplicate_event_trigger_ids:
  "set (duplicate_event_trigger_ids es)
     = {trig. 1 < length (filter (\<lambda>e. ev_trigger_order_id e = Some trig) es)}"
  by (simp add: duplicate_event_trigger_ids_def set_duplicate_keys length_filter_map_filter)

lemma repair_events_as_fold:
  "repair_events ks st
     = foldl (\<lambda>st k. repair_group ev_id ev_created_at (\<lambda>e. ev_trigger_order_id e = k) st) st (map Some ks)"
  by (simp add: repair_events_def foldl_map)

lemma main_trades_after:
  "trades (db_after (fix_duplicate_trades_main db))
     = fst (repair_trades (duplicate_trade_order_ids (trades db)) (trades db, 0))"
  by (cases "duplicate_trade_order_ids (trades db)")
     (simp_all add: fix_duplicate_trades_main_def db_after_def repair_trades_def Let_def
        split: prod.splits)

lemma main_events_after:
  "duplicate_trade_order_ids (trades db) \<noteq> [] \<Longrightarrow>
   close_events (db_after (fix_duplicate_trades_main db))
     = fst (repair_events (duplicate_event_trigger_ids (close_events db))
             (close_events db, snd (repair_trades (duplicate_trade_order_ids (trades db)) (trades db, 0))))"
  by (cases "duplicate_event_trigger_ids (close_events db)")
     (simp_all add: fix_duplicate_trades_main_def db_after_def repair_events_def Let_def
        split: prod.splits)

lemma main_exits_without_duplicates:
  "duplicate_trade_order_ids (trades db) = [] \<Longrightarrow>
   fix_duplicate_trades_main db = ExitedNoDuplicateTrades db"
  by (simp add: fix_duplicate_trades_main_def)

lemma kept_row_length: "length (kept_row stamp matches rows) \<le> Suc 0"
  by (simp add: kept_row_def)

lemma trades_after_group:
  assumes d: "distinct (map tr_id (trades db))"
  shows "filter (\<lambda>t. tr_order_id t = orderId) (trades (db_after (fix_duplicate_trades_main db)))
           = (if orderId \<in> set (duplicate_trade_order_ids (trades db))
              then kept_row tr_timestamp (\<lambda>t. tr_order_id t = orderId) (trades db)
              else filter (\<lambda>t. tr_order_id t = orderId) (trades db))"
  unfolding main_trades_after repair_trades_def
  using repair_fold_group [OF d, of orderId _ tr_order_id tr_timestamp 0]
        repair_fold_other [OF d, of orderId _ tr_order_id tr_timestamp 0]
  by simp

lemma main_second_run:
  assumes d: "distinct (map tr_id (trades db))"
  shows "fix_duplicate_trades_main (db_after (fix_duplicate_trades_main db))
           = ExitedNoDuplicateTrades (db_after (fix_duplicate_trades_main db))"
proof -
  let ?after = "trades (db_after (fix_duplicate_trades_main db))"
  have "\<not> 1 < length (filter (\<lambda>t. tr_type t = ''close'' \<and> tr_order_id t = orderId) ?after)" for orderId
  proof (cases "orderId \<in> set (duplicate_trade_order_ids (trades db))")
    case True
    have "length (filter (\<lambda>t. tr_type t = ''close'') (filter (\<lambda>t. tr_order_id t = orderId) ?after))
            \<le> length (filter (\<lambda>t. tr_order_id t = orderId) ?after)"
      by (rule length_filter_le)
    also have "\<dots> \<le> 1"
      using True by (simp add: trades_after_group [OF d] kept_row_length)
    finally show ?thesis by (simp add: conj_commute)
  next
    case False
    then have "\<not> 1 < length (filter (\<lambda>t. tr_type t = ''close'' \<and> tr_order_id t = orderId) (trades db))"
      by (simp add: set_duplicate_trade_order_ids)
    moreover have "filter (\<lambda>t. tr_type t = ''close'') (filter (\<lambda>t. tr_order_id t = orderId) ?after)
        = filter (\<lambda>t. tr_type t = ''close'') (filter (\<lambda>t. tr_order_id t = orderId) (trades db))"
      using False by (simp add: trades_after_group [OF d])
    ultimately show ?thesis by (simp add: conj_commute)
  qed
  then have "set (duplicate_trade_order_ids ?after) = {}"
    by (simp add: set_duplicate_trade_order_ids)
  then show ?thesis
    by (simp add: main_exits_without_duplicates)
qed

lemma kept_row_of_duplicate:
  assumes "1 < length (filter matches rows)"
  shows "\<exists>keep. kept_row stamp matches rows = [keep] \<and> keep \<in> set rows \<and> matches keep
           \<and> (\<forall>r\<in>set rows. matches r \<longrightarrow> stamp keep \<le> stamp r)"
  using kept_row_cases [of stamp matches rows] assms by auto


subsection \<open>Sample runs\<close>

lemma duplicate_event_trigger_ids_sample:
  "duplicate_event_trigger_ids twice_recorded_close = [''7001'']"
  by code_simp

lemma duplicate_trade_order_ids_samples:
  "duplicate_trade_order_ids one_close_trade = []"
  "duplicate_trade_order_ids twice_recorded_trade = [''7001'']"
  by code_simp+

lemma repaired_sample:
  "fix_duplicate_trades_main \<lparr>trades = twice_recorded_trade, close_events = twice_recorded_close\<rparr>
     = Repaired \<lparr>trades = [hd twice_recorded_trade], close_events = [hd twice_recorded_close]\<rparr> 2"
  by code_simp

text \<open>
  What a run that gets past the first scan does. Let the ids of each table be unique (they
  are primary keys). For every order id carried by more than one trade of type \<open>close\<close>
  exactly one trade with that order id is left, one whose timestamp text is least among
  the trades of that id, and trades of any other order id stay as they are; in such a run
  the close events of a trigger order id carried by more than one event are reduced in the
  same way. A second run right after the first deletes nothing.
\<close>

theorem repair_keeps_first_of_close_duplicates:
  assumes dt: "distinct (map tr_id (trades db))"
      and de: "distinct (map ev_id (close_events db))"
  shows "(1 < length (filter (\<lambda>t. tr_type t = ''close'' \<and> tr_order_id t = orderId) (trades db)) \<longrightarrow>
            (\<exists>keep. filter (\<lambda>t. tr_order_id t = orderId)
                       (trades (db_after (fix_duplicate_trades_main db))) = [keep]
               \<and> keep \<in> set (trades db) \<and> tr_order_id keep = orderId
               \<and> (\<forall>t\<in>set (trades db). tr_order_id t = orderId \<longrightarrow> tr_timestamp keep \<le> tr_timestamp t)))
       \<and> (\<not> 1 < length (filter (\<lambda>t. tr_type t = ''close'' \<and> tr_order_id t = orderId) (trades db)) \<longrightarrow>
            filter (\<lambda>t. tr_order_id t = orderId) (trades (db_after (fix_duplicate_trades_main db)))
              = filter (\<lambda>t. tr_order_id t = orderId) (trades db))
       \<and> (duplicate_trade_order_ids (trades db) \<noteq> []
            \<and> 1 < length (filter (\<lambda>e. ev_trigger_order_id e = Some trig) (close_events db)) \<longrightarrow>
            (\<exists>keep. filter (\<lambda>e. ev_trigger_order_id e = Some trig)
                       (close_events (db_after (fix_duplicate_trades_main db))) = [keep]
               \<and> keep \<in> set (close_events db) \<and> ev_trigger_order_id keep = Some trig
               \<and> (\<forall>e\<in>set (close_events db).
                     ev_trigger_order_id e = Some trig \<longrightarrow> ev_created_at keep \<le> ev_created_at e)))
       \<and> fix_duplicate_trades_main (db_after (fix_duplicate_trades_main db))
            = ExitedNoDuplicateTrades (db_after (fix_duplicate_trades_main db))"
proof (intro conjI impI)
  assume dup: "1 < length (filter (\<lambda>t. tr_type t = ''close'' \<and> tr_order_id t = orderId) (trades db))"
  then have mem: "orderId \<in> set (duplicate_trade_order_ids (trades db))"
    by (simp add: set_duplicate_trade_order_ids)
  have "length (filter (\<lambda>t. tr_type t = ''close'') (filter (\<lambda>t. tr_order_id t = orderId) (trades db)))
          \<le> length (filter (\<lambda>t. tr_order_id t = orderId) (trades db))"
    by (rule length_filter_le)
  with dup have "1 < length (filter (\<lambda>t. tr_order_id t = orderId) (trades db))"
    by (simp add: conj_commute)
  from kept_row_of_duplicate [OF this, of tr_timestamp] mem
  show "\<exists>keep. filter (\<lambda>t. tr_order_id t = orderId)
                       (trades (db_after (fix_duplicate_trades_main db))) = [keep]
               \<and> keep \<in> set (trades db) \<and> tr_order_id keep = orderId
               \<and> (\<forall>t\<in>set (trades db). tr_order_id t = orderId \<longrightarrow> tr_timestamp keep \<le> tr_timestamp t)"
    by (simp add: trades_after_group [OF dt])
next
  assume "\<not> 1 < length (filter (\<lambda>t. tr_type t = ''close'' \<and> tr_order_id t = orderId) (trades db))"
  then have "orderId \<notin> set (duplicate_trade_order_ids (trades db))"
    by (simp add: set_duplicate_trade_order_ids)
  then show "filter (\<lambda>t. tr_order_id t = orderId) (trades (db_after (fix_duplicate_trades_main db)))
              = filter (\<lambda>t. tr_order_id t = orderId) (trades db)"
    by (simp add: trades_after_group [OF dt])
next
  assume a: "duplicate_trade_order_ids (trades db) \<noteq> []
            \<and> 1 < length (filter (\<lambda>e. ev_trigger_order_id e = Some trig) (close_events db))"
  then have mem: "Some trig \<in> set (map Some (duplicate_event_trigger_ids (close_events db)))"
    by (simp add: set_duplicate_event_trigger_ids)
  have after: "filter (\<lambda>e. ev_trigger_order_id e = Some trig)
                 (close_events (db_after (fix_duplicate_trades_main db)))
               = kept_row ev_created_at (\<lambda>e. ev_trigger_order_id e = Some trig) (close_events db)"
    using a repair_fold_group [OF de mem, of ev_trigger_order_id ev_created_at]
    by (simp add: main_events_after repair_events_as_fold)
  from a kept_row_of_duplicate [of "\<lambda>e. ev_trigger_order_id e = Some trig" "close_events db" ev_created_at]
  show "\<exists>keep. filter (\<lambda>e. ev_trigger_order_id e = Some trig)
                       (close_events (db_after (fix_duplicate_trades_main db))) = [keep]
               \<and> keep \<in> set (close_events db) \<and> ev_trigger_order_id keep = Some trig
               \<and> (\<forall>e\<in>set (close_events db).
                     ev_trigger_order_id e = Some trig \<longrightarrow> ev_created_at keep \<le> ev_created_at e)"
    unfolding after by simp
next
  show "fix_duplicate_trades_main (db_after (fix_duplicate_trades_main db))
            = ExitedNoDuplicateTrades (db_after (fix_duplicate_trades_main db))"
    by (rule main_second_run [OF dt])
qed

theorem repair_keeps_first_of_close_duplicates_witness:
  "distinct (map tr_id twice_recorded_trade)
   \<and> distinct (map ev_id twice_recorded_close)
   \<and> trades (db_after (fix_duplicate_trades_main
        \<lparr>trades = twice_recorded_trade, close_events = twice_recorded_close\<rparr>))
       = [hd twice_recorded_trade]
   \<and> close_events (db_after (fix_duplicate_trades_main
        \<lparr>trades = twice_recorded_trade, close_events = twice_recorded_close\<rparr>))
       = [hd twice_recorded_close]
   \<and> fix_duplicate_trades_main
        \<lparr>trades = [hd twice_recorded_trade], close_events = [hd twice_recorded_close]\<rparr>
       = ExitedNoDuplicateTrades
          \<lparr>trades = [hd twice_recorded_trade], close_events = [hd twice_recorded_close]\<rparr>"
proof -
  have h1: "distinct (map tr_id (trades \<lparr>trades = twice_recorded_trade, close_events = twice_recorded_close\<rparr>))"
    by (simp add: twice_recorded_trade_def)
  have h2: "distinct (map ev_id (close_events \<lparr>trades = twice_recorded_trade, close_events = twice_recorded_close\<rparr>))"
    by (simp add: twice_recorded_close_def)
  show ?thesis
    using repair_keeps_first_of_close_duplicates [OF h1 h2, of "''7001''" "''7001''"] h1 h2
    by (simp add: repaired_sample db_after_def)
qed

subsection \<open>A state with duplicated close events only\<close>

text \<open>
  C8. The claim asks that, for every database state, of the close events sharing a trigger
  order id only the earliest stays, and that a second run finds no duplicate group; step 3
  of the script is written to do so. With no order id duplicated among the close trades,
  \<open>main\<close> leaves through \<open>process.exit(0)\<close> right after the first scan, before it reaches
  step 3: two close events recorded for the trigger order id 7001 both stay, in the first
  run and in every later one, while the same two events are reduced to the earlier one as
  soon as the trades table holds a duplicate of its own.
\<close>

theorem repair_exits_before_close_events:
  "fix_duplicate_trades_main \<lparr>trades = one_close_trade, close_events = twice_recorded_close\<rparr>
     = ExitedNoDuplicateTrades \<lparr>trades = one_close_trade, close_events = twice_recorded_close\<rparr>
   \<and> duplicate_event_trigger_ids twice_recorded_close = [''7001'']
   \<and> fix_duplicate_trades_main \<lparr>trades = twice_recorded_trade, close_events = twice_recorded_close\<rparr>
     = Repaired \<lparr>trades = [hd twice_recorded_trade], close_events = [hd twice_recorded_close]\<rparr> 2"
proof -
  have "fix_duplicate_trades_main \<lparr>trades = one_close_trade, close_events = twice_recorded_close\<rparr>
     = ExitedNoDuplicateTrades \<lparr>trades = one_close_trade, close_events = twice_recorded_close\<rparr>"
    by (simp add: fix_duplicate_trades_main_def duplicate_trade_order_ids_samples)
  then show ?thesis
    using duplicate_event_trigger_ids_sample repaired_sample by simp
qed

subsection \<open>Timestamps in two forms\<close>

text \<open>
  The rows of a group are ordered by the timestamp text. Of one fill recorded at
  \<open>2025-11-21T10:56:03+08:00\<close> (02:56:03 UTC) and again at \<open>2025-11-21T03:00:00.000Z\<close>,
  the second text sorts first: the script keeps the later record and deletes the
  chronologically earlier one.
\<close>

lemma repair_keeps_textually_first:
  "fix_duplicate_trades_main \<lparr>trades = [offset_form_trade, utc_form_trade], close_events = []\<rparr>
     = Repaired \<lparr>trades = [utc_form_trade], close_events = []\<rparr> 1
   \<and> js_date_parse (tr_timestamp offset_form_trade) = Some 1763693763000
   \<and> js_date_parse (tr_timestamp utc_form_trade) = Some 1763694000000"
  by code_simp

end
